theory Spec2Isabelle
  imports Main
begin

section \<open>JavaScript values read and built by the resource handler\<close>

text \<open>
  The read-resource handler of \<^verbatim>\<open>src/index.js\<close> works on values that come from the
  JSON-RPC request, from the bodies of the backend's HTTP responses and from errors thrown
  by the HTTP client. They are modelled as trees: the JSON values, \<open>undefined\<close> (the result
  of reading a missing property) and BigInt (the one tree-shaped value that
  \<^verbatim>\<open>JSON.stringify\<close> refuses to serialise). Numbers are the integer-valued ones, in the
  range that JavaScript prints in plain decimal; an object is the list of its own
  enumerable properties in insertion order. Strings are byte strings: a character beyond
  ASCII is written as its UTF-8 bytes.
\<close>

datatype jv =
    JUndef
  | JNull
  | JBool bool
  | JNum int
  | JBigInt int
  | JStr string
  | JArr "jv list"
  | JObj "(string \<times> jv) list"

text \<open>ToBoolean: what \<^verbatim>\<open>if (x)\<close>, \<^verbatim>\<open>x || y\<close> and \<^verbatim>\<open>x && y\<close> test.\<close>

fun truthy :: "jv \<Rightarrow> bool" where
  "truthy JUndef = False"
| "truthy JNull = False"
| "truthy (JBool b) = b"
| "truthy (JNum n) = (n \<noteq> 0)"
| "truthy (JBigInt n) = (n \<noteq> 0)"
| "truthy (JStr s) = (s \<noteq> [])"
| "truthy (JArr xs) = True"
| "truthy (JObj kvs) = True"

definition js_or :: "jv \<Rightarrow> jv \<Rightarrow> jv" where
  "js_or a b = (if truthy a then a else b)"

fun nullish :: "jv \<Rightarrow> bool" where
  "nullish JUndef = True"
| "nullish JNull = True"
| "nullish v = False"

text \<open>
  An exception is the thrown value, carried on the left of a sum. A \<^verbatim>\<open>TypeError\<close>
  raised by the runtime is an object whose \<^verbatim>\<open>message\<close> property holds the text; the
  handler reads nothing else of it (\<^verbatim>\<open>code\<close> and \<^verbatim>\<open>response\<close> are absent on it).
\<close>

definition type_error :: "string \<Rightarrow> jv" where
  "type_error msg = JObj [(''message'', JStr msg)]"

definition bind_r :: "jv + 'a \<Rightarrow> ('a \<Rightarrow> jv + 'b) \<Rightarrow> jv + 'b" where
  "bind_r m f = (case m of Inl e \<Rightarrow> Inl e | Inr x \<Rightarrow> f x)"

text \<open>
  Property reads. \<open>own_prop v k\<close> is \<^verbatim>\<open>v.k\<close> for a \<open>v\<close> that is neither \<open>null\<close> nor
  \<open>undefined\<close>: the stored value for an object, \<open>undefined\<close> for every other value (the
  handler reads no inherited property such as \<^verbatim>\<open>length\<close> through these).
  \<open>get_prop\<close> is the plain read \<^verbatim>\<open>v.k\<close>, which throws on \<open>null\<close> and \<open>undefined\<close>;
  \<open>opt_prop\<close> is the optional chain \<^verbatim>\<open>v?.k\<close>.
\<close>

fun own_prop :: "jv \<Rightarrow> string \<Rightarrow> jv" where
  "own_prop (JObj kvs) k = (case map_of kvs k of None \<Rightarrow> JUndef | Some v \<Rightarrow> v)"
| "own_prop v k = JUndef"

fun type_name :: "jv \<Rightarrow> string" where
  "type_name JNull = ''null''"
| "type_name v = ''undefined''"

definition get_prop :: "jv \<Rightarrow> string \<Rightarrow> jv + jv" where
  "get_prop v k =
     (if nullish v
      then Inl (type_error (''Cannot read properties of '' @ type_name v @
                            '' (reading '' @ [CHR 0x27] @ k @ [CHR 0x27] @ '')''))
      else Inr (own_prop v k))"

definition opt_prop :: "jv \<Rightarrow> string \<Rightarrow> jv" where
  "opt_prop v k = (if nullish v then JUndef else own_prop v k)"

subsection \<open>ToString\<close>

definition digit_char :: "nat \<Rightarrow> char" where
  "digit_char d = char_of (48 + d)"

function digits :: "nat \<Rightarrow> string" where
  "digits n = (if n < 10 then [digit_char n] else digits (n div 10) @ [digit_char (n mod 10)])"
  by pat_completeness auto
termination
  by (relation "measure id") auto

definition show_int :: "int \<Rightarrow> string" where
  "show_int i = (if i < 0 then CHR ''-'' # digits (nat (- i)) else digits (nat i))"

fun join :: "string \<Rightarrow> string list \<Rightarrow> string" where
  "join sep [] = []"
| "join sep [x] = x"
| "join sep (x # y # ys) = x @ sep @ join sep (y # ys)"

text \<open>
  String concatenation \<^verbatim>\<open>'...' + v\<close> and template literals convert \<open>v\<close> with ToString:
  an array joins its elements with commas (\<open>null\<close> and \<open>undefined\<close> elements as empty
  strings), a plain object is \<^verbatim>\<open>[object Object]\<close>.
\<close>

fun to_str :: "jv \<Rightarrow> string" where
  "to_str JUndef = ''undefined''"
| "to_str JNull = ''null''"
| "to_str (JBool b) = (if b then ''true'' else ''false'')"
| "to_str (JNum n) = show_int n"
| "to_str (JBigInt n) = show_int n"
| "to_str (JStr s) = s"
| "to_str (JArr xs) = join '','' (map (\<lambda>x. if nullish x then [] else to_str x) xs)"
| "to_str (JObj kvs) = ''[object Object]''"

subsection \<open>\<^verbatim>\<open>JSON.stringify(value, null, 2)\<close>\<close>

definition hex_char :: "nat \<Rightarrow> char" where
  "hex_char d = (if d < 10 then char_of (48 + d) else char_of (87 + d))"

definition esc_char :: "char \<Rightarrow> string" where
  "esc_char c =
     (if c = CHR 0x22 then [CHR 0x5C, CHR 0x22]
      else if c = CHR 0x5C then [CHR 0x5C, CHR 0x5C]
      else if c = CHR 0x08 then [CHR 0x5C, CHR ''b'']
      else if c = CHR 0x0C then [CHR 0x5C, CHR ''f'']
      else if c = CHR 0x0A then [CHR 0x5C, CHR ''n'']
      else if c = CHR 0x0D then [CHR 0x5C, CHR ''r'']
      else if c = CHR 0x09 then [CHR 0x5C, CHR ''t'']
      else if (of_char c :: nat) < 32
        then [CHR 0x5C, CHR ''u'', CHR ''0'', CHR ''0'',
              hex_char (of_char c div 16), hex_char (of_char c mod 16)]
      else [c])"

definition quote :: "string \<Rightarrow> string" where
  "quote s = CHR 0x22 # concat (map esc_char s) @ [CHR 0x22]"

definition indent :: "nat \<Rightarrow> string" where
  "indent n = replicate (2 * n) CHR '' ''"

definition nl :: "nat \<Rightarrow> string" where
  "nl n = CHR 0x0A # indent n"

text \<open>
  \<open>ser n v\<close> is the text of \<open>v\<close> at nesting depth \<open>n\<close> with the two-space indentation the
  handler asks for. Inside an array \<open>undefined\<close> is written \<open>null\<close>; a property whose value
  is \<open>undefined\<close> is left out of its object.
\<close>

fun ser :: "nat \<Rightarrow> jv \<Rightarrow> string" where
  "ser n JUndef = ''null''"
| "ser n JNull = ''null''"
| "ser n (JBool b) = (if b then ''true'' else ''false'')"
| "ser n (JNum i) = show_int i"
| "ser n (JBigInt i) = show_int i"
| "ser n (JStr s) = quote s"
| "ser n (JArr xs) =
     (if xs = [] then ''[]''
      else ''['' @ nl (Suc n) @ join ('','' @ nl (Suc n)) (map (ser (Suc n)) xs) @ nl n @ '']'')"
| "ser n (JObj kvs) =
     (let ms = filter (\<lambda>kv. snd kv \<noteq> JUndef) kvs
      in if ms = [] then ''{}''
         else ''{'' @ nl (Suc n) @
              join ('','' @ nl (Suc n)) (map (\<lambda>kv. quote (fst kv) @ '': '' @ ser (Suc n) (snd kv)) ms) @
              nl n @ ''}'')"

fun has_bigint :: "jv \<Rightarrow> bool" where
  "has_bigint (JBigInt i) = True"
| "has_bigint (JArr xs) = list_ex has_bigint xs"
| "has_bigint (JObj kvs) = list_ex (\<lambda>kv. has_bigint (snd kv)) kvs"
| "has_bigint v = False"

text \<open>
  \<^verbatim>\<open>JSON.stringify\<close> throws a \<^verbatim>\<open>TypeError\<close> when it meets a BigInt, returns
  \<open>undefined\<close> (here \<open>None\<close>) for \<open>undefined\<close>, and a string otherwise.
\<close>

definition stringify :: "jv \<Rightarrow> jv + string option" where
  "stringify v =
     (if has_bigint v then Inl (type_error ''Do not know how to serialize a BigInt'')
      else if v = JUndef then Inr None
      else Inr (Some (ser 0 v)))"

subsection \<open>String methods used on the URI\<close>

text \<open>
  \<^verbatim>\<open>s.startsWith(p)\<close>, \<^verbatim>\<open>s.includes(p)\<close> and \<^verbatim>\<open>s.replace(p, r)\<close> with a string
  pattern, which replaces the first occurrence of \<open>p\<close> only (the handler's replacement is
  the empty string, so no \<^verbatim>\<open>$\<close> pattern is involved).
\<close>

definition startsWith :: "string \<Rightarrow> string \<Rightarrow> bool" where
  "startsWith s p = (take (length p) s = p)"

fun js_includes :: "string \<Rightarrow> string \<Rightarrow> bool" where
  "js_includes [] p = (p = [])"
| "js_includes (c # cs) p = (startsWith (c # cs) p \<or> js_includes cs p)"

fun replace :: "string \<Rightarrow> string \<Rightarrow> string \<Rightarrow> string" where
  "replace [] p r = (if p = [] then r else [])"
| "replace (c # cs) p r =
     (if startsWith (c # cs) p then r @ drop (length p) (c # cs) else c # replace cs p r)"

section \<open>The read-resource handler\<close>

subsection \<open>Results, backend and clock\<close>

text \<open>
  The handler returns \<^verbatim>\<open>{contents: [{uri, mimeType, text}]}\<close>. The \<open>text\<close> of a content
  is what \<^verbatim>\<open>JSON.stringify\<close> returned: a string, or \<open>undefined\<close> (\<open>None\<close>).
\<close>

record content =
  content_uri :: jv
  content_mimeType :: string
  content_text :: "string option"

record result =
  contents :: "content list"

text \<open>
  The backend is reached through \<^verbatim>\<open>this.hiveflowClient.get(url, {params})\<close>. Awaiting
  a call either yields the response object or throws. The backend is given by what it
  answers to the \<open>n\<close>-th call of a resolution (counted from 0), for each request that call
  may carry: this covers a backend whose answer to one request changes during the
  resolution. The handler's run is paired with the list of requests it issued, in order. \<open>now\<close> is the reading of \<^verbatim>\<open>new Date().toISOString()\<close> that ends up
  in the body, and \<open>baseURL\<close> is \<^verbatim>\<open>this.hiveflowClient.defaults.baseURL\<close>.
\<close>

datatype http_get = Get string "(string \<times> jv) list"

datatype outcome = Returns jv | Throws jv

type_synonym backend = "nat \<Rightarrow> http_get \<Rightarrow> outcome"

definition await_get :: "backend \<Rightarrow> nat \<Rightarrow> http_get \<Rightarrow> jv + jv" where
  "await_get be n rq = (case be n rq of Returns r \<Rightarrow> Inr r | Throws e \<Rightarrow> Inl e)"

definition mk_content :: "jv \<Rightarrow> string option \<Rightarrow> result" where
  "mk_content uri t =
     \<lparr>contents = [\<lparr>content_uri = uri, content_mimeType = ''application/json'', content_text = t\<rparr>]\<rparr>"

subsection \<open>\<^verbatim>\<open>createValidResponse\<close> (lines 318-405)\<close>

text \<open>
  \<open>errorMsg\<close> defaults to \<open>null\<close> when the caller passes nothing (\<open>JUndef\<close>). The first
  \<^verbatim>\<open>JSON.stringify\<close> is inside \<^verbatim>\<open>try\<close>; the ones of the \<^verbatim>\<open>catch\<close> block, of the
  empty-text fallback and of the final validation are not, so what they throw leaves the
  function. The body is written over the serialiser \<open>S\<close>, so that the two checks made after
  serialising (\<^verbatim>\<open>typeof text !== 'string' || text.length === 0\<close> and the final
  validation) can be stated for any behaviour of \<^verbatim>\<open>JSON.stringify\<close>, also one that
  returns \<open>undefined\<close> for a truthy value (a function, a symbol), which \<open>jv\<close> does not hold;
  \<open>createValidResponse\<close> is the body run with \<open>stringify\<close>.
\<close>

definition createValidResponse_with ::
  "(jv \<Rightarrow> jv + string option) \<Rightarrow> string \<Rightarrow> jv \<Rightarrow> jv \<Rightarrow> jv \<Rightarrow> jv + result" where
  "createValidResponse_with S now uri data errorMsg0 =
     (let errorMsg = (if errorMsg0 = JUndef then JNull else errorMsg0);
          attempt =
            (if truthy errorMsg
             then S (JObj [(''error'', errorMsg), (''uri'', uri),
                           (''timestamp'', JStr now), (''data'', js_or data JNull)])
             else S (js_or data (JArr [])));
          caught =
            (case attempt of
               Inr t \<Rightarrow> Inr t
             | Inl jsonError \<Rightarrow>
                 bind_r (get_prop jsonError ''message'') (\<lambda>m.
                   S (JObj [(''error'', JStr (''Error al serializar datos: '' @ to_str m)),
                            (''uri'', uri), (''timestamp'', JStr now)])))
      in bind_r caught (\<lambda>text1.
           bind_r (if text1 = None \<or> text1 = Some []
                   then S (JObj [(''error'', JStr (''Respuesta vac'' @ [CHR 0xC3, CHR 0xAD] @ ''a'')),
                                 (''uri'', uri), (''timestamp'', JStr now)])
                   else Inr text1) (\<lambda>text.
             if text = None
             then bind_r (S (JObj
                     [(''error'', JStr (''Error interno: no se pudo generar respuesta v'' @
                                        [CHR 0xC3, CHR 0xA1] @ ''lida'')),
                      (''timestamp'', JStr now),
                      (''debug'', JStr (''createValidResponse fall'' @ [CHR 0xC3, CHR 0xB3] @
                                        '' en validaci'' @ [CHR 0xC3, CHR 0xB3] @ ''n final''))]))
                    (\<lambda>t. Inr (mk_content (js_or uri (JStr ''unknown'')) t))
             else Inr (mk_content uri text))))"

definition createValidResponse :: "string \<Rightarrow> jv \<Rightarrow> jv \<Rightarrow> jv \<Rightarrow> jv + result" where
  "createValidResponse now uri data errorMsg = createValidResponse_with stringify now uri data errorMsg"

subsection \<open>Error messages of the \<^verbatim>\<open>catch (apiError)\<close> blocks\<close>

definition generic_error :: string where
  "generic_error = ''Error de conexi'' @ [CHR 0xC3, CHR 0xB3] @ ''n con el backend''"

definition unavailable_at :: "string \<Rightarrow> string" where
  "unavailable_at baseURL =
     ''Backend no disponible. Aseg'' @ [CHR 0xC3, CHR 0xBA] @ ''rate de que est'' @
     [CHR 0xC3, CHR 0xA9] @ '' corriendo en '' @ baseURL"

definition unknown_error :: jv where
  "unknown_error = JStr ''Error desconocido''"

subsection \<open>\<^verbatim>\<open>case 'hiveflow://flows'\<close> (lines 409-444)\<close>

definition flows_try :: "backend \<Rightarrow> string \<Rightarrow> jv \<Rightarrow> jv + result" where
  "flows_try be now uri =
     bind_r (await_get be 0 (Get ''/api/flows'' [])) (\<lambda>flowsResponse.
     bind_r (get_prop flowsResponse ''status'') (\<lambda>logged.
     bind_r (get_prop flowsResponse ''data'') (\<lambda>d.
       if truthy d \<and> truthy (own_prop d ''success'')
       then createValidResponse now uri (js_or (own_prop d ''data'') (JArr [])) JUndef
       else createValidResponse now uri (JArr [])
              (JStr (''No se pudieron obtener los flujos: '' @
                     to_str (js_or (opt_prop d ''message'') unknown_error))))))"

definition flows_catch :: "string \<Rightarrow> string \<Rightarrow> jv \<Rightarrow> jv \<Rightarrow> jv + result" where
  "flows_catch baseURL now uri apiError =
     bind_r (get_prop apiError ''message'') (\<lambda>logged.
       let m = opt_prop (opt_prop (own_prop apiError ''response'') ''data'') ''message'';
           errorMessage =
             (if own_prop apiError ''code'' = JStr ''ECONNREFUSED''
              then JStr (''Backend no disponible en '' @ baseURL @ ''. Aseg'' @ [CHR 0xC3, CHR 0xBA] @
                         ''rate de que est'' @ [CHR 0xC3, CHR 0xA9] @ '' corriendo.'')
              else if truthy m then m
              else JStr generic_error)
       in createValidResponse now uri (JArr []) errorMessage)"

definition read_flows :: "string \<Rightarrow> backend \<Rightarrow> string \<Rightarrow> jv \<Rightarrow> http_get list \<times> (jv + result)" where
  "read_flows baseURL be now uri =
     ([Get ''/api/flows'' []],
      case flows_try be now uri of
        Inr r \<Rightarrow> Inr r
      | Inl apiError \<Rightarrow> flows_catch baseURL now uri apiError)"

subsection \<open>\<^verbatim>\<open>case 'hiveflow://mcp-servers'\<close> (lines 446-462)\<close>

definition servers_try :: "backend \<Rightarrow> string \<Rightarrow> jv \<Rightarrow> jv + result" where
  "servers_try be now uri =
     bind_r (await_get be 0 (Get ''/api/mcp/servers'' [])) (\<lambda>serversResponse.
     bind_r (get_prop serversResponse ''data'') (\<lambda>d.
       if truthy d \<and> truthy (own_prop d ''success'')
       then createValidResponse now uri (js_or (own_prop d ''servers'') (JArr [])) JUndef
       else createValidResponse now uri (JArr [])
              (JStr (''No se pudieron obtener los servidores MCP: '' @
                     to_str (js_or (opt_prop d ''message'') unknown_error)))))"

text \<open>
  The \<^verbatim>\<open>catch\<close> block shared, word for word, by the mcp-servers, executions and
  flow-executions branches.
\<close>

definition plain_catch :: "string \<Rightarrow> string \<Rightarrow> jv \<Rightarrow> jv \<Rightarrow> jv + result" where
  "plain_catch baseURL now uri apiError =
     bind_r (get_prop apiError ''code'') (\<lambda>code.
       let errorMessage =
             (if code = JStr ''ECONNREFUSED'' then JStr (unavailable_at baseURL)
              else JStr generic_error)
       in createValidResponse now uri (JArr []) errorMessage)"

definition read_servers :: "string \<Rightarrow> backend \<Rightarrow> string \<Rightarrow> jv \<Rightarrow> http_get list \<times> (jv + result)" where
  "read_servers baseURL be now uri =
     ([Get ''/api/mcp/servers'' []],
      case servers_try be now uri of
        Inr r \<Rightarrow> Inr r
      | Inl apiError \<Rightarrow> plain_catch baseURL now uri apiError)"

subsection \<open>\<^verbatim>\<open>case 'hiveflow://executions'\<close> (lines 464-506)\<close>

text \<open>
  The object pushed for one process of one flow. The property reads happen in the order
  of the object literal; a \<open>null\<close> process (or flow) makes the first read throw.
\<close>

definition execution_record :: "jv \<Rightarrow> jv \<Rightarrow> jv + jv" where
  "execution_record flow process =
     bind_r (get_prop flow ''_id'') (\<lambda>flowId.
     bind_r (get_prop flow ''name'') (\<lambda>flowName.
     bind_r (get_prop process ''processId'') (\<lambda>processId.
       Inr (JObj [(''flowId'', flowId), (''flowName'', flowName), (''processId'', processId),
                  (''status'', own_prop process ''status''),
                  (''startTime'', own_prop process ''startTime''),
                  (''endTime'', own_prop process ''endTime''),
                  (''duration'', own_prop process ''duration'')]))))"

text \<open>
  \<^verbatim>\<open>processes.forEach(process => allExecutions.push({...}))\<close>: the records pushed before
  an exception stay in \<open>allExecutions\<close>; the second component is the exception, if any.
\<close>

fun push_all :: "jv \<Rightarrow> jv list \<Rightarrow> jv list \<Rightarrow> jv list \<times> jv option" where
  "push_all flow [] allExecutions = (allExecutions, None)"
| "push_all flow (process # ps) allExecutions =
     (case execution_record flow process of
        Inl e \<Rightarrow> (allExecutions, Some e)
      | Inr r \<Rightarrow> push_all flow ps (allExecutions @ [r]))"

text \<open>
  \<^verbatim>\<open>catch (processError)\<close>: the log line reads \<^verbatim>\<open>flow._id\<close> and
  \<^verbatim>\<open>processError.message\<close>, then the loop goes on with the next flow.
\<close>

definition process_catch :: "jv \<Rightarrow> jv \<Rightarrow> jv list \<Rightarrow> jv + jv list" where
  "process_catch flow processError allExecutions =
     bind_r (get_prop flow ''_id'') (\<lambda>logged.
     bind_r (get_prop processError ''message'') (\<lambda>logged'.
       Inr allExecutions))"

definition processes_request :: "jv \<Rightarrow> http_get" where
  "processes_request flowId = Get (''/api/flows/'' @ to_str flowId @ ''/processes?limit=10'') []"

text \<open>
  One iteration of the \<^verbatim>\<open>for\<close> loop, as the \<open>n\<close>-th call of the resolution: the requests
  issued and the new \<open>allExecutions\<close>.
\<close>

definition process_flow :: "backend \<Rightarrow> nat \<Rightarrow> jv \<Rightarrow> jv list \<Rightarrow> http_get list \<times> (jv + jv list)" where
  "process_flow be n flow allExecutions =
     (case get_prop flow ''_id'' of
        Inl e \<Rightarrow> ([], process_catch flow e allExecutions)
      | Inr flowId \<Rightarrow>
          ([processes_request flowId],
           case await_get be n (processes_request flowId) of
             Inl e \<Rightarrow> process_catch flow e allExecutions
           | Inr processesResponse \<Rightarrow>
               (case get_prop processesResponse ''data'' of
                  Inl e \<Rightarrow> process_catch flow e allExecutions
                | Inr d \<Rightarrow>
                    if truthy d \<and> truthy (own_prop d ''success'')
                    then (case js_or (own_prop d ''processes'') (JArr []) of
                            JArr ps \<Rightarrow>
                              (case push_all flow ps allExecutions of
                                 (pushed, None) \<Rightarrow> Inr pushed
                               | (pushed, Some e) \<Rightarrow> process_catch flow e pushed)
                          | other \<Rightarrow>
                              process_catch flow
                                (type_error ''processes.forEach is not a function'') allExecutions)
                    else Inr allExecutions)))"

text \<open>
  The loop. An iteration that ends normally has issued exactly one call, so the next
  iteration makes the call after it.
\<close>

fun aggregate :: "backend \<Rightarrow> nat \<Rightarrow> jv list \<Rightarrow> jv list \<Rightarrow> http_get list \<times> (jv + jv list)" where
  "aggregate be n [] allExecutions = ([], Inr allExecutions)"
| "aggregate be n (flow # flows) allExecutions =
     (case process_flow be n flow allExecutions of
        (calls, Inl e) \<Rightarrow> (calls, Inl e)
      | (calls, Inr pushed) \<Rightarrow>
          (case aggregate be (Suc n) flows pushed of (calls', r) \<Rightarrow> (calls @ calls', r)))"

text \<open>
  \<^verbatim>\<open>flows.slice(0, 5)\<close> and the iteration over it: an array gives its first five
  elements, a string its first five characters, anything else has no \<^verbatim>\<open>slice\<close>.
\<close>

definition first_five :: "jv \<Rightarrow> jv + jv list" where
  "first_five flows =
     bind_r (get_prop flows ''slice'') (\<lambda>m.
       case flows of
         JArr xs \<Rightarrow> Inr (take 5 xs)
       | JStr s \<Rightarrow> Inr (map (\<lambda>c. JStr [c]) (take 5 s))
       | other \<Rightarrow> Inl (type_error ''flows.slice is not a function''))"

definition executions_try :: "backend \<Rightarrow> string \<Rightarrow> jv \<Rightarrow> http_get list \<times> (jv + result)" where
  "executions_try be now uri =
     (case await_get be 0 (Get ''/api/flows'' []) of
        Inl e \<Rightarrow> ([Get ''/api/flows'' []], Inl e)
      | Inr flowsResponse \<Rightarrow>
          (case get_prop flowsResponse ''data'' of
             Inl e \<Rightarrow> ([Get ''/api/flows'' []], Inl e)
           | Inr d \<Rightarrow>
               if truthy d \<and> truthy (own_prop d ''success'')
               then (case first_five (js_or (own_prop d ''data'') (JArr [])) of
                       Inl e \<Rightarrow> ([Get ''/api/flows'' []], Inl e)
                     | Inr flows \<Rightarrow>
                         (case aggregate be 1 flows [] of
                            (calls, Inl e) \<Rightarrow> (Get ''/api/flows'' [] # calls, Inl e)
                          | (calls, Inr allExecutions) \<Rightarrow>
                              (Get ''/api/flows'' [] # calls,
                               createValidResponse now uri (JArr allExecutions) JUndef)))
               else ([Get ''/api/flows'' []],
                     createValidResponse now uri (JArr [])
                       (JStr (''No se pudieron obtener los flujos para buscar ejecuciones: '' @
                              to_str (js_or (opt_prop d ''message'') unknown_error))))))"

definition read_executions :: "string \<Rightarrow> backend \<Rightarrow> string \<Rightarrow> jv \<Rightarrow> http_get list \<times> (jv + result)" where
  "read_executions baseURL be now uri =
     (case executions_try be now uri of
        (calls, Inr r) \<Rightarrow> (calls, Inr r)
      | (calls, Inl apiError) \<Rightarrow> (calls, plain_catch baseURL now uri apiError))"

subsection \<open>Template \<^verbatim>\<open>hiveflow://flows/{flowId}/executions\<close> (lines 511-532)\<close>

definition flow_executions_request :: "string \<Rightarrow> http_get" where
  "flow_executions_request flowId =
     Get (''/api/flows/'' @ flowId @ ''/processes'') [(''limit'', JNum 20)]"

definition flow_executions_try :: "backend \<Rightarrow> string \<Rightarrow> jv \<Rightarrow> string \<Rightarrow> jv + result" where
  "flow_executions_try be now uri flowId =
     bind_r (await_get be 0 (flow_executions_request flowId)) (\<lambda>response.
     bind_r (get_prop response ''data'') (\<lambda>d.
       if truthy d \<and> truthy (own_prop d ''success'')
       then createValidResponse now uri (js_or (own_prop d ''processes'') (JArr [])) JUndef
       else createValidResponse now uri (JArr [])
              (JStr (''No se pudieron obtener las ejecuciones del flujo '' @ flowId @ '': '' @
                     to_str (js_or (opt_prop d ''message'') unknown_error)))))"

definition read_flow_executions ::
  "string \<Rightarrow> backend \<Rightarrow> string \<Rightarrow> jv \<Rightarrow> string \<Rightarrow> http_get list \<times> (jv + result)" where
  "read_flow_executions baseURL be now uri flowId =
     ([flow_executions_request flowId],
      case flow_executions_try be now uri flowId of
        Inr r \<Rightarrow> Inr r
      | Inl apiError \<Rightarrow> plain_catch baseURL now uri apiError)"

subsection \<open>Template \<^verbatim>\<open>hiveflow://flows/{flowId}\<close> (lines 533-563)\<close>

definition flow_request :: "string \<Rightarrow> http_get" where
  "flow_request flowId = Get (''/api/flows/'' @ flowId) []"

definition flow_try :: "backend \<Rightarrow> string \<Rightarrow> jv \<Rightarrow> string \<Rightarrow> jv + result" where
  "flow_try be now uri flowId =
     bind_r (await_get be 0 (flow_request flowId)) (\<lambda>response.
     bind_r (get_prop response ''data'') (\<lambda>d.
       if truthy d \<and> truthy (own_prop d ''success'')
       then createValidResponse now uri (js_or (own_prop d ''data'') (own_prop d ''flow'')) JUndef
       else createValidResponse now uri JNull
              (JStr (''No se pudo obtener el flujo '' @ flowId @ '': '' @
                     to_str (js_or (opt_prop d ''message'') unknown_error)))))"

definition flow_catch :: "string \<Rightarrow> string \<Rightarrow> jv \<Rightarrow> string \<Rightarrow> jv \<Rightarrow> jv + result" where
  "flow_catch baseURL now uri flowId apiError =
     bind_r (get_prop apiError ''message'') (\<lambda>logged.
       let response = own_prop apiError ''response'';
           m = opt_prop (opt_prop response ''data'') ''message'';
           errorMessage =
             (if own_prop apiError ''code'' = JStr ''ECONNREFUSED'' then JStr (unavailable_at baseURL)
              else if opt_prop response ''status'' = JNum 404
                then JStr (''Flujo con ID '' @ flowId @ '' no encontrado'')
              else if truthy m then m
              else JStr generic_error)
       in createValidResponse now uri JNull errorMessage)"

definition read_flow ::
  "string \<Rightarrow> backend \<Rightarrow> string \<Rightarrow> jv \<Rightarrow> string \<Rightarrow> http_get list \<times> (jv + result)" where
  "read_flow baseURL be now uri flowId =
     ([flow_request flowId],
      case flow_try be now uri flowId of
        Inr r \<Rightarrow> Inr r
      | Inl apiError \<Rightarrow> flow_catch baseURL now uri flowId apiError)"

subsection \<open>No match: the catalog (lines 564-576)\<close>

definition catalog :: jv where
  "catalog =
     JObj [(''availableResources'',
              JArr [JStr ''hiveflow://flows'', JStr ''hiveflow://mcp-servers'',
                    JStr ''hiveflow://executions'']),
           (''availableTemplates'',
              JArr [JStr ''hiveflow://flows/{flowId}'',
                    JStr ''hiveflow://flows/{flowId}/executions''])]"

definition read_catalog :: "string \<Rightarrow> string \<Rightarrow> http_get list \<times> (jv + result)" where
  "read_catalog now uri =
     ([], createValidResponse now (JStr uri) catalog (JStr (''Recurso no encontrado: '' @ uri)))"

subsection \<open>The \<^verbatim>\<open>switch (uri)\<close> and its \<^verbatim>\<open>default\<close> chain (lines 408-577)\<close>

datatype route =
    FlowsList
  | McpServers
  | AllExecutions
  | FlowExecutions string
  | SingleFlow string
  | NoMatch

definition route_of :: "string \<Rightarrow> route" where
  "route_of uri =
     (if uri = ''hiveflow://flows'' then FlowsList
      else if uri = ''hiveflow://mcp-servers'' then McpServers
      else if uri = ''hiveflow://executions'' then AllExecutions
      else if startsWith uri ''hiveflow://flows/'' \<and> js_includes uri ''/executions''
        then FlowExecutions (replace (replace uri ''hiveflow://flows/'' []) ''/executions'' [])
      else if startsWith uri ''hiveflow://flows/'' \<and> \<not> js_includes uri ''/executions''
        then SingleFlow (replace uri ''hiveflow://flows/'' [])
      else NoMatch)"

fun resolve :: "string \<Rightarrow> backend \<Rightarrow> string \<Rightarrow> string \<Rightarrow> route \<Rightarrow> http_get list \<times> (jv + result)" where
  "resolve baseURL be now uri FlowsList = read_flows baseURL be now (JStr uri)"
| "resolve baseURL be now uri McpServers = read_servers baseURL be now (JStr uri)"
| "resolve baseURL be now uri AllExecutions = read_executions baseURL be now (JStr uri)"
| "resolve baseURL be now uri (FlowExecutions flowId) =
     read_flow_executions baseURL be now (JStr uri) flowId"
| "resolve baseURL be now uri (SingleFlow flowId) = read_flow baseURL be now (JStr uri) flowId"
| "resolve baseURL be now uri NoMatch = read_catalog now uri"

text \<open>
  A \<open>uri\<close> that is not a string matches no \<^verbatim>\<open>case\<close> and then fails at
  \<^verbatim>\<open>uri.startsWith\<close>.
\<close>

definition switch_uri :: "string \<Rightarrow> backend \<Rightarrow> string \<Rightarrow> jv \<Rightarrow> http_get list \<times> (jv + result)" where
  "switch_uri baseURL be now uri =
     (case uri of
        JStr u \<Rightarrow> resolve baseURL be now u (route_of u)
      | other \<Rightarrow>
          ([], bind_r (get_prop uri ''startsWith'') (\<lambda>m.
                 Inl (type_error ''uri.startsWith is not a function''))))"

subsection \<open>The handler and its two enclosing \<^verbatim>\<open>try\<close> blocks (lines 295-605)\<close>

text \<open>
  \<open>handler_body\<close> is the outer \<^verbatim>\<open>try\<close> block: the destructuring of
  \<^verbatim>\<open>request.params\<close>, the \<^verbatim>\<open>switch\<close> inside the inner \<^verbatim>\<open>try\<close>, and the inner
  \<^verbatim>\<open>catch (error)\<close>, which builds its answer with \<^verbatim>\<open>createValidResponse\<close>.
  The closure \<^verbatim>\<open>emergencyResponse\<close> (lines 301-315) is defined there and never called.
  Log lines are kept only where they read a property and so can throw.
\<close>

definition handler_body :: "string \<Rightarrow> backend \<Rightarrow> string \<Rightarrow> jv \<Rightarrow> http_get list \<times> (jv + result)" where
  "handler_body baseURL be now request =
     (case get_prop request ''params'' of
        Inl e \<Rightarrow> ([], Inl e)
      | Inr params \<Rightarrow>
          if nullish params
          then ([], Inl (type_error
                  (''Cannot destructure property '' @ [CHR 0x27] @ ''uri'' @ [CHR 0x27] @ '' of '' @
                   [CHR 0x27] @ ''request.params'' @ [CHR 0x27] @ '' as it is '' @ type_name params @ ''.'')))
          else
            (let uri = own_prop params ''uri''
             in case switch_uri baseURL be now uri of
                  (calls, Inr r) \<Rightarrow> (calls, Inr r)
                | (calls, Inl error) \<Rightarrow>
                    (calls,
                     bind_r (get_prop error ''message'') (\<lambda>m.
                       createValidResponse now uri JNull
                         (JStr (''Error interno del servidor MCP: '' @ to_str m))))))"

text \<open>The outermost \<^verbatim>\<open>catch (criticalError)\<close>.\<close>

definition critical_catch :: "string \<Rightarrow> jv \<Rightarrow> jv \<Rightarrow> jv + result" where
  "critical_catch now request criticalError =
     bind_r (get_prop criticalError ''message'') (\<lambda>m.
     bind_r (stringify (JObj [(''error'', JStr (''Error cr'' @ [CHR 0xC3, CHR 0xAD] @
                                               ''tico en el servidor MCP'')),
                              (''message'', m), (''timestamp'', JStr now)])) (\<lambda>t.
       Inr (mk_content (js_or (opt_prop (opt_prop request ''params'') ''uri'') (JStr ''unknown'')) t)))"

definition read_resource :: "string \<Rightarrow> backend \<Rightarrow> string \<Rightarrow> jv \<Rightarrow> http_get list \<times> (jv + result)" where
  "read_resource baseURL be now request =
     (case handler_body baseURL be now request of
        (calls, Inr r) \<Rightarrow> (calls, Inr r)
      | (calls, Inl criticalError) \<Rightarrow> (calls, critical_catch now request criticalError))"

section \<open>Notions the properties are stated with\<close>

subsection \<open>Well-formed JSON text\<close>

text \<open>
  The grammar of JSON texts (RFC 8259), as predicates on strings; numbers are the integer
  literals, which are all the serialiser writes.
\<close>

definition ws_char :: "char \<Rightarrow> bool" where
  "ws_char c = (c = CHR '' '' \<or> c = CHR 0x0A \<or> c = CHR 0x0D \<or> c = CHR 0x09)"

definition is_ws :: "string \<Rightarrow> bool" where
  "is_ws s = list_all ws_char s"

definition is_digit :: "char \<Rightarrow> bool" where
  "is_digit c = (48 \<le> (of_char c :: nat) \<and> (of_char c :: nat) \<le> 57)"

definition is_hex :: "char \<Rightarrow> bool" where
  "is_hex c = (is_digit c \<or> (97 \<le> (of_char c :: nat) \<and> (of_char c :: nat) \<le> 102)
                \<or> (65 \<le> (of_char c :: nat) \<and> (of_char c :: nat) \<le> 70))"

definition json_nat :: "string \<Rightarrow> bool" where
  "json_nat s = (s \<noteq> [] \<and> list_all is_digit s \<and> (hd s = CHR ''0'' \<longrightarrow> length s = 1))"

definition json_number :: "string \<Rightarrow> bool" where
  "json_number s = (case s of [] \<Rightarrow> False | c # cs \<Rightarrow> if c = CHR ''-'' then json_nat cs else json_nat s)"

inductive json_chars :: "string \<Rightarrow> bool" where
  chars_nil: "json_chars []"
| chars_plain: "c \<noteq> CHR 0x22 \<Longrightarrow> c \<noteq> CHR 0x5C \<Longrightarrow> 32 \<le> (of_char c :: nat) \<Longrightarrow>
                json_chars cs \<Longrightarrow> json_chars (c # cs)"
| chars_esc: "e \<in> set [CHR 0x22, CHR 0x5C, CHR ''/'', CHR ''b'', CHR ''f'', CHR ''n'', CHR ''r'', CHR ''t''] \<Longrightarrow>
              json_chars cs \<Longrightarrow> json_chars (CHR 0x5C # e # cs)"
| chars_uni: "is_hex h1 \<Longrightarrow> is_hex h2 \<Longrightarrow> is_hex h3 \<Longrightarrow> is_hex h4 \<Longrightarrow>
              json_chars cs \<Longrightarrow> json_chars (CHR 0x5C # CHR ''u'' # h1 # h2 # h3 # h4 # cs)"

definition json_string :: "string \<Rightarrow> bool" where
  "json_string s = (\<exists>b. s = CHR 0x22 # b @ [CHR 0x22] \<and> json_chars b)"

inductive json_value :: "string \<Rightarrow> bool"
  and json_elems :: "string \<Rightarrow> bool"
  and json_members :: "string \<Rightarrow> bool" where
  jnull: "json_value ''null''"
| jtrue: "json_value ''true''"
| jfalse: "json_value ''false''"
| jnum: "json_number s \<Longrightarrow> json_value s"
| jstr: "json_string s \<Longrightarrow> json_value s"
| jarr0: "is_ws w \<Longrightarrow> json_value (''['' @ w @ '']'')"
| jarr: "json_elems s \<Longrightarrow> json_value (''['' @ s @ '']'')"
| jobj0: "is_ws w \<Longrightarrow> json_value (''{'' @ w @ ''}'')"
| jobj: "json_members s \<Longrightarrow> json_value (''{'' @ s @ ''}'')"
| elem1: "is_ws w1 \<Longrightarrow> json_value v \<Longrightarrow> is_ws w2 \<Longrightarrow> json_elems (w1 @ v @ w2)"
| elems: "is_ws w1 \<Longrightarrow> json_value v \<Longrightarrow> is_ws w2 \<Longrightarrow> json_elems r \<Longrightarrow>
          json_elems (w1 @ v @ w2 @ '','' @ r)"
| mem1: "is_ws w1 \<Longrightarrow> json_string k \<Longrightarrow> is_ws w2 \<Longrightarrow> is_ws w3 \<Longrightarrow> json_value v \<Longrightarrow> is_ws w4 \<Longrightarrow>
         json_members (w1 @ k @ w2 @ '':'' @ w3 @ v @ w4)"
| mems: "is_ws w1 \<Longrightarrow> json_string k \<Longrightarrow> is_ws w2 \<Longrightarrow> is_ws w3 \<Longrightarrow> json_value v \<Longrightarrow> is_ws w4 \<Longrightarrow>
         json_members r \<Longrightarrow> json_members (w1 @ k @ w2 @ '':'' @ w3 @ v @ w4 @ '','' @ r)"

definition json_text :: "string \<Rightarrow> bool" where
  "json_text s = (\<exists>w1 v w2. s = w1 @ v @ w2 \<and> is_ws w1 \<and> json_value v \<and> is_ws w2)"

subsection \<open>Requests and bodies\<close>

text \<open>The URI a request carries: \<^verbatim>\<open>request?.params?.uri\<close>.\<close>

definition request_uri :: "jv \<Rightarrow> jv" where
  "request_uri request = opt_prop (opt_prop request ''params'') ''uri''"

text \<open>The error envelope \<^verbatim>\<open>{error, uri, timestamp, data}\<close>.\<close>

definition envelope :: "jv \<Rightarrow> jv \<Rightarrow> string \<Rightarrow> jv \<Rightarrow> jv" where
  "envelope errorMsg uri now d =
     JObj [(''error'', errorMsg), (''uri'', uri), (''timestamp'', JStr now), (''data'', d)]"

text \<open>A response that carries the body \<open>t\<close> for \<open>uri\<close>.\<close>

definition body_is :: "jv + result \<Rightarrow> jv \<Rightarrow> string \<Rightarrow> bool" where
  "body_is r uri t = (r = Inr (mk_content uri (Some t)))"

text \<open>
  What \<^verbatim>\<open>createValidResponse\<close> serialises first (the primary body), and the envelope
  it falls back to when that serialisation throws.
\<close>

definition primary_body :: "string \<Rightarrow> jv \<Rightarrow> jv \<Rightarrow> jv \<Rightarrow> jv" where
  "primary_body now uri data errorMsg =
     (if truthy errorMsg then envelope errorMsg uri now (js_or data JNull)
      else js_or data (JArr []))"

definition serialization_failure :: "string \<Rightarrow> jv \<Rightarrow> jv" where
  "serialization_failure now uri =
     JObj [(''error'', JStr ''Error al serializar datos: Do not know how to serialize a BigInt''),
           (''uri'', uri), (''timestamp'', JStr now)]"

definition empty_fallback :: "string \<Rightarrow> jv \<Rightarrow> jv" where
  "empty_fallback now uri =
     JObj [(''error'', JStr (''Respuesta vac'' @ [CHR 0xC3, CHR 0xAD] @ ''a'')),
           (''uri'', uri), (''timestamp'', JStr now)]"

text \<open>
  A well-formed result: one content whose text is a non-empty JSON text. A run is contained
  when it ends in a well-formed result or in a \<^verbatim>\<open>TypeError\<close> raised by the runtime
  (never in a value thrown by the backend).
\<close>

definition well_formed :: "result \<Rightarrow> bool" where
  "well_formed r = (\<exists>uri t. r = mk_content uri (Some t) \<and> t \<noteq> [] \<and> json_text t)"

definition is_contained :: "jv + result \<Rightarrow> bool" where
  "is_contained x = (case x of Inl e \<Rightarrow> \<exists>m. e = type_error m | Inr r \<Rightarrow> well_formed r)"

text \<open>What a \<^verbatim>\<open>try\<close> block returns is well-formed; what it throws is for its \<^verbatim>\<open>catch\<close>.\<close>

definition returns_ok :: "jv + result \<Rightarrow> bool" where
  "returns_ok x = (case x of Inl e \<Rightarrow> True | Inr r \<Rightarrow> well_formed r)"

text \<open>The body of the last-resort response of \<^verbatim>\<open>catch (criticalError)\<close>.\<close>

definition critical_body :: "string \<Rightarrow> string \<Rightarrow> jv" where
  "critical_body now m =
     JObj [(''error'', JStr (''Error cr'' @ [CHR 0xC3, CHR 0xAD] @ ''tico en el servidor MCP'')),
           (''message'', JStr m), (''timestamp'', JStr now)]"

subsection \<open>Equality up to the timestamp\<close>

definition drop_timestamp :: "jv \<Rightarrow> jv" where
  "drop_timestamp v =
     (case v of JObj kvs \<Rightarrow> JObj (filter (\<lambda>kv. fst kv \<noteq> ''timestamp'') kvs) | other \<Rightarrow> v)"

text \<open>
  Two results are the same up to the timestamp when they carry the same URI and media
  type and their texts serialise two values that differ at most in the top-level
  \<^verbatim>\<open>timestamp\<close> member.
\<close>

definition same_modulo_timestamp :: "result \<Rightarrow> result \<Rightarrow> bool" where
  "same_modulo_timestamp r1 r2 =
     (\<exists>uri d1 d2. r1 = mk_content uri (Some (ser 0 d1)) \<and> r2 = mk_content uri (Some (ser 0 d2)) \<and>
                  drop_timestamp d1 = drop_timestamp d2)"

definition agree :: "jv + result \<Rightarrow> jv + result \<Rightarrow> bool" where
  "agree x y =
     (case x of
        Inl e1 \<Rightarrow> (case y of Inl e2 \<Rightarrow> e1 = e2 | Inr r2 \<Rightarrow> False)
      | Inr r1 \<Rightarrow> (case y of Inl e2 \<Rightarrow> False | Inr r2 \<Rightarrow> same_modulo_timestamp r1 r2))"

text \<open>Two runs issue the same requests and end in agreeing results.\<close>

definition agree_runs :: "http_get list \<times> (jv + result) \<Rightarrow> http_get list \<times> (jv + result) \<Rightarrow> bool" where
  "agree_runs x y = (fst x = fst y \<and> agree (snd x) (snd y))"

subsection \<open>The request a route starts with\<close>

fun primary_request :: "route \<Rightarrow> http_get option" where
  "primary_request FlowsList = Some (Get ''/api/flows'' [])"
| "primary_request McpServers = Some (Get ''/api/mcp/servers'' [])"
| "primary_request AllExecutions = Some (Get ''/api/flows'' [])"
| "primary_request (FlowExecutions flowId) = Some (flow_executions_request flowId)"
| "primary_request (SingleFlow flowId) = Some (flow_request flowId)"
| "primary_request NoMatch = None"

text \<open>The fixed prefix and the fixed segment the two templates are matched with.\<close>

definition flows_prefix :: string where
  "flows_prefix = ''hiveflow://flows/''"

definition executions_segment :: string where
  "executions_segment = ''/executions''"

subsection \<open>Messages and aggregates\<close>

text \<open>The message of the flows branch when the connection is refused.\<close>

definition flows_unavailable :: "string \<Rightarrow> string" where
  "flows_unavailable baseURL =
     ''Backend no disponible en '' @ baseURL @ ''. Aseg'' @ [CHR 0xC3, CHR 0xBA] @
     ''rate de que est'' @ [CHR 0xC3, CHR 0xA9] @ '' corriendo.''"







section \<open>The serialiser writes well-formed JSON\<close>

declare digits.simps [simp del]

lemma is_ws_nil [simp]: "is_ws []"
  by (simp add: is_ws_def)

lemma is_ws_nl [simp]: "is_ws (nl n)"
  by (simp add: is_ws_def nl_def indent_def ws_char_def list_all_iff)

lemma is_ws_space [simp]: "is_ws '' ''"
  by (simp add: is_ws_def ws_char_def)

lemma is_digit_digit_char: "d < 10 \<Longrightarrow> is_digit (digit_char d)"
  by (simp add: is_digit_def digit_char_def)

lemma digits_all: "list_all is_digit (digits n)"
proof (induction n rule: digits.induct)
  case (1 n)
  show ?case
  proof (cases "n < 10")
    case True
    then show ?thesis by (subst digits.simps) (simp add: is_digit_digit_char)
  next
    case False
    then have "list_all is_digit (digits (n div 10))" using 1 by simp
    moreover have "is_digit (digit_char (n mod 10))" by (simp add: is_digit_digit_char)
    ultimately show ?thesis using False by (subst digits.simps) simp
  qed
qed

lemma digits_ne: "digits n \<noteq> []"
  by (subst digits.simps) simp

lemma digit_char_zero:
  assumes "d < 10" and "digit_char d = CHR ''0''"
  shows "d = 0"
proof -
  have "(of_char (digit_char d) :: nat) = of_char CHR ''0''" using assms(2) by simp
  then show ?thesis using assms(1) by (simp add: digit_char_def)
qed

lemma digits_hd: "hd (digits n) = CHR ''0'' \<Longrightarrow> n = 0"
proof (induction n rule: digits.induct)
  case (1 n)
  show ?case
  proof (cases "n < 10")
    case True
    then have "digits n = [digit_char n]" by (subst digits.simps) simp
    then show ?thesis using 1(2) True by (simp add: digit_char_zero)
  next
    case False
    then have "hd (digits n) = hd (digits (n div 10))"
      by (subst digits.simps) (simp add: digits_ne)
    then have "n div 10 = 0" using 1 False by simp
    then show ?thesis using False by simp
  qed
qed

lemma length_digits_0: "length (digits 0) = 1"
  by (subst digits.simps) simp

lemma json_nat_digits: "json_nat (digits n)"
  unfolding json_nat_def using digits_all digits_ne digits_hd length_digits_0 by blast

lemma digits_hd_not_minus: "hd (digits n) \<noteq> CHR ''-''"
proof -
  obtain c cs where eq: "digits n = c # cs" using digits_ne [of n] by (cases "digits n") auto
  have "is_digit c" using digits_all [of n] eq by simp
  then have "c \<noteq> CHR ''-''" by (auto simp: is_digit_def)
  then show ?thesis using eq by simp
qed

lemma json_number_show_int: "json_number (show_int i)"
proof (cases "i < 0")
  case True
  then show ?thesis by (simp add: json_number_def show_int_def json_nat_digits)
next
  case False
  obtain c cs where eq: "digits (nat i) = c # cs"
    using digits_ne [of "nat i"] by (cases "digits (nat i)") auto
  have "c \<noteq> CHR ''-''" using digits_hd_not_minus [of "nat i"] eq by simp
  moreover have "json_nat (c # cs)" using json_nat_digits [of "nat i"] eq by simp
  ultimately show ?thesis using False eq by (simp add: json_number_def show_int_def)
qed

lemma is_hex_hex_char: "d < 16 \<Longrightarrow> is_hex (hex_char d)"
  by (simp add: is_hex_def is_digit_def hex_char_def)

lemma is_hex_zero: "is_hex CHR ''0''"
  by (simp add: is_hex_def is_digit_def)

lemma json_chars_esc: 
  assumes "json_chars cs" shows "json_chars (esc_char c @ cs)"
proof -
  consider (q) "c = CHR 0x22" | (b) "c = CHR 0x5C" | (bs) "c = CHR 0x08" | (ff) "c = CHR 0x0C"
    | (lf) "c = CHR 0x0A" | (cr) "c = CHR 0x0D" | (tab) "c = CHR 0x09"
    | (ctl) "c \<noteq> CHR 0x22" "c \<noteq> CHR 0x5C" "c \<noteq> CHR 0x08" "c \<noteq> CHR 0x0C" "c \<noteq> CHR 0x0A"
            "c \<noteq> CHR 0x0D" "c \<noteq> CHR 0x09" "(of_char c :: nat) < 32"
    | (plain) "c \<noteq> CHR 0x22" "c \<noteq> CHR 0x5C" "c \<noteq> CHR 0x08" "c \<noteq> CHR 0x0C" "c \<noteq> CHR 0x0A"
            "c \<noteq> CHR 0x0D" "c \<noteq> CHR 0x09" "\<not> (of_char c :: nat) < 32"
    by blast
  then show ?thesis
  proof cases
    case q then show ?thesis using assms by (simp add: esc_char_def chars_esc)
  next
    case b then show ?thesis using assms by (simp add: esc_char_def chars_esc)
  next
    case bs then show ?thesis using assms by (simp add: esc_char_def chars_esc)
  next
    case ff then show ?thesis using assms by (simp add: esc_char_def chars_esc)
  next
    case lf then show ?thesis using assms by (simp add: esc_char_def chars_esc)
  next
    case cr then show ?thesis using assms by (simp add: esc_char_def chars_esc)
  next
    case tab then show ?thesis using assms by (simp add: esc_char_def chars_esc)
  next
    case ctl
    have "is_hex (hex_char (of_char c div 16))" "is_hex (hex_char (of_char c mod 16))"
      using ctl(8) by (simp_all add: is_hex_hex_char)
    then have "json_chars (CHR 0x5C # CHR ''u'' # CHR ''0'' # CHR ''0'' #
                hex_char (of_char c div 16) # hex_char (of_char c mod 16) # cs)"
      using assms is_hex_zero by (intro chars_uni)
    then show ?thesis using ctl by (simp add: esc_char_def)
  next
    case plain
    then have "json_chars (c # cs)" using assms by (intro chars_plain) simp_all
    then show ?thesis using plain by (simp add: esc_char_def)
  qed
qed

lemma json_chars_concat_esc: "json_chars (concat (map esc_char s))"
proof (induction s)
  case Nil
  show ?case by (simp add: chars_nil)
next
  case (Cons c s)
  then show ?case using json_chars_esc [of "concat (map esc_char s)" c] by simp
qed

lemma json_chars_snoc_free: "json_chars b \<Longrightarrow> json_string (CHR 0x22 # b @ [CHR 0x22])"
  by (auto simp: json_string_def)

lemma json_string_quote: "json_string (quote s)"
  unfolding quote_def by (rule json_chars_snoc_free) (rule json_chars_concat_esc)

lemma elems_join:
  "xs \<noteq> [] \<Longrightarrow> (\<And>s. s \<in> set xs \<Longrightarrow> json_value s) \<Longrightarrow> is_ws w \<Longrightarrow> is_ws w' \<Longrightarrow>
   json_elems (w @ join ('','' @ w) xs @ w')"
proof (induction xs rule: induct_list012)
  case 1
  then show ?case by simp
next
  case (2 x)
  have jx: "json_value x" by (rule "2.prems"(2)) simp
  show ?case using elem1 [OF "2.prems"(3) jx "2.prems"(4)] by simp
next
  case (3 x y ys)
  have r: "json_elems (w @ join ('','' @ w) (y # ys) @ w')"
    using 3 by simp
  have x: "json_value x" by (rule "3.prems"(2)) simp
  show ?case using elems [OF "3.prems"(3) x is_ws_nil r] by simp
qed

lemma members_join:
  "ms \<noteq> [] \<Longrightarrow> (\<And>m. m \<in> set ms \<Longrightarrow> json_value (f m)) \<Longrightarrow> is_ws w \<Longrightarrow> is_ws w' \<Longrightarrow>
   json_members (w @ join ('','' @ w) (map (\<lambda>m. quote (g m) @ '': '' @ f m) ms) @ w')"
proof (induction ms rule: induct_list012)
  case 1
  then show ?case by simp
next
  case (2 m)
  have v: "json_value (f m)" by (rule "2.prems"(2)) simp
  show ?case
    using mem1 [OF "2.prems"(3) json_string_quote is_ws_nil is_ws_space v "2.prems"(4), of "g m"] by simp
next
  case (3 m m' ms)
  have r: "json_members (w @ join ('','' @ w) (map (\<lambda>m. quote (g m) @ '': '' @ f m) (m' # ms)) @ w')"
    using 3 by simp
  have v: "json_value (f m)" by (rule "3.prems"(2)) simp
  show ?case
    using mems [OF "3.prems"(3) json_string_quote is_ws_nil is_ws_space v is_ws_nil r, of "g m"] by simp
qed

lemma json_value_ser: "json_value (ser n v)"
proof (induction n v rule: ser.induct)
  case (7 n xs)
  show ?case
  proof (cases "xs = []")
    case True
    then show ?thesis using jarr0 [OF is_ws_nil] by simp
  next
    case False
    have "json_elems (nl (Suc n) @ join ('','' @ nl (Suc n)) (map (ser (Suc n)) xs) @ nl n)"
      using False 7 by (intro elems_join) auto
    from jarr [OF this] show ?thesis using False by simp
  qed
next
  case (8 n kvs)
  define ms where "ms = filter (\<lambda>kv. snd kv \<noteq> JUndef) kvs"
  show ?case
  proof (cases "ms = []")
    case True
    then show ?thesis using jobj0 [OF is_ws_nil] by (simp add: ms_def)
  next
    case False
    have "json_members (nl (Suc n) @ join ('','' @ nl (Suc n))
            (map (\<lambda>kv. quote (fst kv) @ '': '' @ ser (Suc n) (snd kv)) ms) @ nl n)"
      using False 8 [OF ms_def]
      by (intro members_join) auto
    from jobj [OF this] show ?thesis using False by (simp add: ms_def Let_def)
  qed
qed (simp_all add: jnull jtrue jfalse jnum jstr json_number_show_int json_string_quote)

section \<open>The response normaliser\<close>

lemma json_value_ne: "json_value s \<Longrightarrow> s \<noteq> []"
  by (cases rule: json_value.cases) (auto simp: json_number_def json_string_def)

lemma ser_ne: "ser n v \<noteq> []"
  using json_value_ne [OF json_value_ser] .

lemma json_text_value: "json_value s \<Longrightarrow> json_text s"
  unfolding json_text_def using is_ws_nil by (metis append_Nil append_Nil2)

lemma json_text_ser: "json_text (ser n v)"
  by (rule json_text_value) (rule json_value_ser)

lemma stringify_Inl: "stringify v = Inl e \<Longrightarrow> e = type_error ''Do not know how to serialize a BigInt''"
  by (auto simp: stringify_def split: if_splits)

lemma stringify_bigint: "has_bigint v \<Longrightarrow> stringify v = Inl (type_error ''Do not know how to serialize a BigInt'')"
  by (simp add: stringify_def)

lemma stringify_ok: "\<not> has_bigint v \<Longrightarrow> v \<noteq> JUndef \<Longrightarrow> stringify v = Inr (Some (ser 0 v))"
  by (simp add: stringify_def)

lemma type_error_message: "get_prop (type_error m) k = Inr (if k = ''message'' then JStr m else JUndef)"
  by (simp add: get_prop_def type_error_def)

lemma primary_body_ne: "primary_body now uri data errorMsg \<noteq> JUndef"
  by (auto simp: primary_body_def envelope_def js_or_def)

lemma has_bigint_failure: "has_bigint (serialization_failure now uri) = has_bigint uri"
  by (simp add: serialization_failure_def)

lemma createValidResponse_eq:
  "createValidResponse now uri data errorMsg =
     (if has_bigint (primary_body now uri data errorMsg)
      then (if has_bigint uri then Inl (type_error ''Do not know how to serialize a BigInt'')
            else Inr (mk_content uri (Some (ser 0 (serialization_failure now uri)))))
      else Inr (mk_content uri (Some (ser 0 (primary_body now uri data errorMsg)))))"
proof -
  let ?p = "primary_body now uri data errorMsg"
  let ?e = "if errorMsg = JUndef then JNull else errorMsg"
  have tr: "truthy ?e = truthy errorMsg" by simp
  have att: "(if truthy ?e
             then stringify (JObj [(''error'', ?e), (''uri'', uri),
                           (''timestamp'', JStr now), (''data'', js_or data JNull)])
             else stringify (js_or data (JArr []))) = stringify ?p"
    by (cases "errorMsg = JUndef") (simp_all add: primary_body_def envelope_def)
  show ?thesis
  proof (cases "has_bigint ?p")
    case False
    then have "stringify ?p = Inr (Some (ser 0 ?p))" by (simp add: stringify_ok primary_body_ne)
    then show ?thesis using False att
      unfolding createValidResponse_def createValidResponse_with_def
      by (simp add: Let_def bind_r_def ser_ne)
  next
    case True
    then have s: "stringify ?p = Inl (type_error ''Do not know how to serialize a BigInt'')"
      by (simp add: stringify_bigint)
    let ?f = "JObj [(''error'', JStr (''Error al serializar datos: '' @ to_str (JStr ''Do not know how to serialize a BigInt''))),
                            (''uri'', uri), (''timestamp'', JStr now)]"
    have f: "?f = serialization_failure now uri" by (simp add: serialization_failure_def)
    show ?thesis
    proof (cases "has_bigint uri")
      case True
      then have "stringify ?f = Inl (type_error ''Do not know how to serialize a BigInt'')"
        by (simp add: stringify_def)
      then show ?thesis using \<open>has_bigint ?p\<close> True att s
        unfolding createValidResponse_def createValidResponse_with_def
        by (simp add: Let_def bind_r_def type_error_message)
    next
      case False
      then have "stringify ?f = Inr (Some (ser 0 (serialization_failure now uri)))"
        unfolding f by (simp add: stringify_def serialization_failure_def)
      then show ?thesis using \<open>has_bigint ?p\<close> False att s
        unfolding createValidResponse_def createValidResponse_with_def
        by (simp add: Let_def bind_r_def type_error_message ser_ne)
    qed
  qed
qed

lemma createValidResponse_with_recheck:
  assumes "S (primary_body now uri data errorMsg) = Inr None \<or> S (primary_body now uri data errorMsg) = Inr (Some [])"
    and "S (empty_fallback now uri) = Inr (Some t)"
  shows "createValidResponse_with S now uri data errorMsg = Inr (mk_content uri (Some t))"
proof -
  let ?e = "if errorMsg = JUndef then JNull else errorMsg"
  have att: "(if truthy ?e
             then S (JObj [(''error'', ?e), (''uri'', uri),
                           (''timestamp'', JStr now), (''data'', js_or data JNull)])
             else S (js_or data (JArr []))) = S (primary_body now uri data errorMsg)"
    by (cases "errorMsg = JUndef") (simp_all add: primary_body_def envelope_def)
  have fb: "S (JObj [(''error'', JStr (''Respuesta vac'' @ [CHR 0xC3, CHR 0xAD] @ ''a'')),
                                 (''uri'', uri), (''timestamp'', JStr now)]) = Inr (Some t)"
    using assms(2) by (simp add: empty_fallback_def)
  show ?thesis
    using assms(1) att fb
    unfolding createValidResponse_with_def
    by (auto simp add: Let_def bind_r_def)
qed

section \<open>Fault containment\<close>

lemma well_formed_ser: "well_formed (mk_content uri (Some (ser n v)))"
  unfolding well_formed_def using ser_ne json_text_ser by blast

lemma contained_type_error [simp]: "is_contained (Inl (type_error m))"
  unfolding is_contained_def by auto

lemma contained_Inr [simp]: "is_contained (Inr r) = well_formed r"
  by (simp add: is_contained_def)

lemma contained_cvr: "is_contained (createValidResponse now uri data errorMsg)"
  by (simp add: createValidResponse_eq well_formed_ser)

lemma contained_get:
  assumes "\<And>x. is_contained (f x)"
  shows "is_contained (bind_r (get_prop v k) f)"
proof (cases "nullish v")
  case True
  then show ?thesis by (simp add: bind_r_def get_prop_def)
next
  case False
  then show ?thesis using assms [of "own_prop v k"] by (simp add: bind_r_def get_prop_def)
qed

lemma contained_flows_catch: "is_contained (flows_catch baseURL now uri e)"
  unfolding flows_catch_def Let_def by (intro contained_get contained_cvr)

lemma contained_plain_catch: "is_contained (plain_catch baseURL now uri e)"
  unfolding plain_catch_def Let_def by (intro contained_get contained_cvr)

lemma contained_flow_catch: "is_contained (flow_catch baseURL now uri flowId e)"
  unfolding flow_catch_def Let_def by (intro contained_get contained_cvr)

lemma returns_ok_contained: "is_contained x \<Longrightarrow> returns_ok x"
  by (auto simp: returns_ok_def is_contained_def split: sum.splits)

lemma returns_ok_bind:
  assumes "\<And>x. returns_ok (f x)"
  shows "returns_ok (bind_r m f)"
proof (cases m)
  case (Inl e)
  then show ?thesis by (simp add: bind_r_def returns_ok_def)
next
  case (Inr x)
  then show ?thesis using assms [of x] by (simp add: bind_r_def)
qed

lemma returns_ok_cvr: "returns_ok (createValidResponse now uri data errorMsg)"
  by (rule returns_ok_contained) (rule contained_cvr)

lemma returns_ok_if: "returns_ok a \<Longrightarrow> returns_ok b \<Longrightarrow> returns_ok (if c then a else b)"
  by simp

lemma returns_ok_flows_try: "returns_ok (flows_try be now uri)"
  unfolding flows_try_def by (intro returns_ok_bind returns_ok_if returns_ok_cvr)

lemma returns_ok_servers_try: "returns_ok (servers_try be now uri)"
  unfolding servers_try_def by (intro returns_ok_bind returns_ok_if returns_ok_cvr)

lemma returns_ok_flow_executions_try: "returns_ok (flow_executions_try be now uri flowId)"
  unfolding flow_executions_try_def by (intro returns_ok_bind returns_ok_if returns_ok_cvr)

lemma returns_ok_flow_try: "returns_ok (flow_try be now uri flowId)"
  unfolding flow_try_def by (intro returns_ok_bind returns_ok_if returns_ok_cvr)

lemma contained_try_catch:
  assumes "returns_ok t" and "\<And>e. is_contained (c e)"
  shows "is_contained (case t of Inr r \<Rightarrow> Inr r | Inl e \<Rightarrow> c e)"
proof (cases t)
  case (Inl e)
  then show ?thesis using assms(2) [of e] by simp
next
  case (Inr r)
  then show ?thesis using assms(1) by (simp add: returns_ok_def)
qed

lemma contained_read_flows: "is_contained (snd (read_flows baseURL be now uri))"
  unfolding read_flows_def snd_conv
  by (intro contained_try_catch returns_ok_flows_try contained_flows_catch)

lemma contained_read_servers: "is_contained (snd (read_servers baseURL be now uri))"
  unfolding read_servers_def snd_conv
  by (intro contained_try_catch returns_ok_servers_try contained_plain_catch)

lemma contained_read_flow_executions: "is_contained (snd (read_flow_executions baseURL be now uri flowId))"
  unfolding read_flow_executions_def snd_conv
  by (intro contained_try_catch returns_ok_flow_executions_try contained_plain_catch)

lemma contained_read_flow: "is_contained (snd (read_flow baseURL be now uri flowId))"
  unfolding read_flow_def snd_conv
  by (intro contained_try_catch returns_ok_flow_try contained_flow_catch)

lemma contained_read_catalog: "is_contained (snd (read_catalog now uri))"
  unfolding read_catalog_def snd_conv by (rule contained_cvr)

lemma cvr_Inr_well_formed: "createValidResponse now uri data errorMsg = Inr r \<Longrightarrow> well_formed r"
  using contained_cvr [of now uri data errorMsg] by simp

lemma returns_ok_executions_try: "returns_ok (snd (executions_try be now uri))"
  unfolding executions_try_def
  by (auto simp: returns_ok_def dest: cvr_Inr_well_formed split: sum.splits prod.splits)

lemma contained_read_executions: "is_contained (snd (read_executions baseURL be now uri))"
proof -
  obtain calls t where e: "executions_try be now uri = (calls, t)" by (cases "executions_try be now uri")
  have "returns_ok t" using returns_ok_executions_try [of be now uri] e by simp
  then have "is_contained (case t of Inr r \<Rightarrow> Inr r | Inl e \<Rightarrow> plain_catch baseURL now uri e)"
    by (intro contained_try_catch contained_plain_catch)
  then show ?thesis unfolding read_executions_def e by (cases t) simp_all
qed

lemma contained_resolve: "is_contained (snd (resolve baseURL be now uri r))"
  by (cases r) (simp_all add: contained_read_flows contained_read_servers contained_read_executions
      contained_read_flow_executions contained_read_flow contained_read_catalog)

lemma contained_switch_uri: "is_contained (snd (switch_uri baseURL be now uri))"
  unfolding switch_uri_def
  by (cases uri) (simp_all add: contained_resolve bind_r_def get_prop_def)

lemma contained_handler_body: "is_contained (snd (handler_body baseURL be now request))"
proof (cases "nullish request")
  case True
  then show ?thesis by (simp add: handler_body_def get_prop_def)
next
  case False
  note req = this
  show ?thesis
  proof (cases "nullish (own_prop request ''params'')")
    case True
    then show ?thesis using req by (simp add: handler_body_def get_prop_def)
  next
    case False
    let ?uri = "own_prop (own_prop request ''params'') ''uri''"
    obtain calls t where sw: "switch_uri baseURL be now ?uri = (calls, t)"
      by (cases "switch_uri baseURL be now ?uri")
    have ct: "is_contained t" using contained_switch_uri [of baseURL be now ?uri] sw by simp
    show ?thesis
    proof (cases t)
      case (Inr r)
      then show ?thesis using req False sw ct by (simp add: handler_body_def get_prop_def Let_def)
    next
      case (Inl e)
      have "is_contained (bind_r (get_prop e ''message'') (\<lambda>m.
                       createValidResponse now ?uri JNull
                         (JStr (''Error interno del servidor MCP: '' @ to_str m))))"
        by (intro contained_get contained_cvr)
      then show ?thesis using req False sw Inl by (simp add: handler_body_def get_prop_def Let_def)
    qed
  qed
qed

lemma critical_catch_type_error:
  "critical_catch now request (type_error m) =
     Inr (mk_content (js_or (request_uri request) (JStr ''unknown'')) (Some (ser 0 (critical_body now m))))"
  by (simp add: critical_catch_def type_error_message bind_r_def stringify_def request_uri_def critical_body_def)

lemma read_resource_cases:
  "\<exists>r. snd (read_resource baseURL be now request) = Inr r \<and> well_formed r \<and>
       (snd (handler_body baseURL be now request) = Inr r \<or>
        (\<exists>m. snd (handler_body baseURL be now request) = Inl (type_error m) \<and>
             r = mk_content (js_or (request_uri request) (JStr ''unknown''))
                   (Some (ser 0 (critical_body now m)))))"
proof -
  obtain calls t where hb: "handler_body baseURL be now request = (calls, t)"
    by (cases "handler_body baseURL be now request")
  have ct: "is_contained t" using contained_handler_body [of baseURL be now request] hb by simp
  show ?thesis
  proof (cases t)
    case (Inr r)
    then show ?thesis using hb ct by (simp add: read_resource_def)
  next
    case (Inl e)
    then obtain m where e: "e = type_error m" using ct by (auto simp: is_contained_def)
    have "snd (read_resource baseURL be now request) =
            Inr (mk_content (js_or (request_uri request) (JStr ''unknown''))
                   (Some (ser 0 (critical_body now m))))"
      using hb Inl e by (simp add: read_resource_def critical_catch_type_error)
    moreover have "snd (handler_body baseURL be now request) = Inl (type_error m)"
      using hb Inl e by simp
    ultimately show ?thesis using well_formed_ser by blast
  qed
qed

lemma fst_read_resource: "fst (read_resource baseURL be now request) = fst (handler_body baseURL be now request)"
  by (simp add: read_resource_def split: prod.splits sum.splits)

section \<open>Routing\<close>

lemma startsWith_append [simp]: "startsWith (p @ s) p"
  by (simp add: startsWith_def)

lemma js_includes_nil [simp]: "js_includes s []"
  by (cases s) (simp_all add: startsWith_def)

lemma js_includes_prefix: "js_includes (p @ s) p"
proof (cases "p @ s")
  case Nil
  then show ?thesis by simp
next
  case (Cons a l)
  have "startsWith (a # l) p" using startsWith_append [of p s] Cons by simp
  then show ?thesis using Cons by simp
qed

lemma js_includes_append: "js_includes (a @ p @ b) p"
proof (induction a)
  case Nil
  show ?case using js_includes_prefix [of p b] by simp
next
  case (Cons c a)
  then show ?case by simp
qed

lemma replace_prefix: "startsWith s p \<Longrightarrow> replace s p [] = drop (length p) s"
  by (cases s) (auto simp: startsWith_def)

lemma no_overlap:
  assumes "c \<notin> set r" and "startsWith (xs @ c # r) (c # r)"
  shows "xs = [] \<or> startsWith xs (c # r)"
proof (cases "length xs < Suc (length r)")
  case False
  then show ?thesis using assms(2) by (simp add: startsWith_def)
next
  case True
  show ?thesis
  proof (cases "xs = []")
    case False
    have t: "take (Suc (length r)) (xs @ c # r) = c # r"
      using assms(2) by (simp add: startsWith_def)
    have "(c # r) ! length xs = take (Suc (length r)) (xs @ c # r) ! length xs"
      using t by simp
    also have "\<dots> = (xs @ c # r) ! length xs" using True by (intro nth_take)
    also have "\<dots> = c" by simp
    finally have "(c # r) ! length xs = c" .
    moreover have "0 < length xs" using False by simp
    ultimately have "r ! (length xs - 1) = c" by (simp add: nth_Cons')
    moreover have "length xs - 1 < length r" using True False by (cases xs) simp_all
    ultimately have "c \<in> set r" using nth_mem by metis
    then show ?thesis using assms(1) by simp
  qed simp
qed

lemma replace_suffix:
  assumes "c \<notin> set r"
  shows "\<not> js_includes ident (c # r) \<Longrightarrow> replace (ident @ c # r) (c # r) [] = ident"
proof (induction ident)
  case Nil
  show ?case by (simp add: startsWith_def)
next
  case (Cons d ds)
  then have a: "\<not> startsWith (d # ds) (c # r)" and b: "\<not> js_includes ds (c # r)"
    by simp_all
  have "\<not> startsWith ((d # ds) @ c # r) (c # r)"
    using no_overlap [OF assms, of "d # ds"] a by blast
  then have "replace ((d # ds) @ c # r) (c # r) [] = d # replace (ds @ c # r) (c # r) []"
    by simp
  then show ?case using Cons.IH [OF b] by simp
qed

lemma replace_executions_suffix:
  "\<not> js_includes ident executions_segment \<Longrightarrow>
   replace (ident @ executions_segment) executions_segment [] = ident"
  unfolding executions_segment_def by (rule replace_suffix) simp

lemma route_literals:
  "route_of ''hiveflow://flows'' = FlowsList"
  "route_of ''hiveflow://mcp-servers'' = McpServers"
  "route_of ''hiveflow://executions'' = AllExecutions"
  by (simp_all add: route_of_def)

lemma prefix_not_literal:
  assumes "startsWith uri flows_prefix"
  shows "uri \<noteq> ''hiveflow://flows''" "uri \<noteq> ''hiveflow://mcp-servers''" "uri \<noteq> ''hiveflow://executions''"
  using assms by (auto simp: startsWith_def flows_prefix_def)

lemma route_of_cases:
  "route_of uri =
     (if uri = ''hiveflow://flows'' then FlowsList
      else if uri = ''hiveflow://mcp-servers'' then McpServers
      else if uri = ''hiveflow://executions'' then AllExecutions
      else if startsWith uri flows_prefix \<and> js_includes uri executions_segment
        then FlowExecutions (replace (drop (length flows_prefix) uri) executions_segment [])
      else if startsWith uri flows_prefix then SingleFlow (drop (length flows_prefix) uri)
      else NoMatch)"
proof -
  have "route_of uri =
     (if uri = ''hiveflow://flows'' then FlowsList
      else if uri = ''hiveflow://mcp-servers'' then McpServers
      else if uri = ''hiveflow://executions'' then AllExecutions
      else if startsWith uri flows_prefix \<and> js_includes uri executions_segment
        then FlowExecutions (replace (replace uri flows_prefix []) executions_segment [])
      else if startsWith uri flows_prefix \<and> \<not> js_includes uri executions_segment
        then SingleFlow (replace uri flows_prefix [])
      else NoMatch)"
    unfolding route_of_def flows_prefix_def executions_segment_def ..
  then show ?thesis using replace_prefix [of uri flows_prefix] by auto
qed

lemma route_of_FlowExecutions_iff:
  "route_of uri = FlowExecutions fid \<longleftrightarrow>
     startsWith uri flows_prefix \<and> js_includes uri executions_segment \<and>
     fid = replace (drop (length flows_prefix) uri) executions_segment []"
  using prefix_not_literal [of uri] by (auto simp: route_of_cases)

lemma route_of_SingleFlow_iff:
  "route_of uri = SingleFlow fid \<longleftrightarrow>
     startsWith uri flows_prefix \<and> \<not> js_includes uri executions_segment \<and>
     fid = drop (length flows_prefix) uri"
  using prefix_not_literal [of uri] by (auto simp: route_of_cases)

lemma route_of_template_uri:
  assumes "\<not> js_includes ident executions_segment"
  shows "route_of (flows_prefix @ ident @ executions_segment) = FlowExecutions ident"
proof -
  let ?u = "flows_prefix @ ident @ executions_segment"
  have s: "startsWith ?u flows_prefix" by (rule startsWith_append)
  have i: "js_includes ?u executions_segment"
    using js_includes_append [of "flows_prefix @ ident" executions_segment "[]"] by simp
  have "drop (length flows_prefix) ?u = ident @ executions_segment" by simp
  then show ?thesis
    using s i replace_executions_suffix [OF assms] by (simp add: route_of_FlowExecutions_iff)
qed

lemma request_uri_string:
  assumes "request_uri request = JStr u"
  shows "get_prop request ''params'' = Inr (own_prop request ''params'')"
    and "\<not> nullish (own_prop request ''params'')"
    and "own_prop (own_prop request ''params'') ''uri'' = JStr u"
proof -
  have a: "\<not> nullish request"
    using assms by (auto simp: request_uri_def opt_prop_def split: if_splits)
  then have p: "opt_prop request ''params'' = own_prop request ''params''" by (simp add: opt_prop_def)
  show "get_prop request ''params'' = Inr (own_prop request ''params'')"
    using a by (simp add: get_prop_def)
  show b: "\<not> nullish (own_prop request ''params'')"
    using assms p by (auto simp: request_uri_def opt_prop_def split: if_splits)
  show "own_prop (own_prop request ''params'') ''uri'' = JStr u"
    using assms p b by (simp add: request_uri_def opt_prop_def)
qed

lemma read_resource_string:
  assumes "request_uri request = JStr u"
  shows "fst (read_resource baseURL be now request) = fst (resolve baseURL be now u (route_of u))"
    and "snd (resolve baseURL be now u (route_of u)) = Inr r \<Longrightarrow>
         snd (read_resource baseURL be now request) = Inr r"
proof -
  obtain calls t where rs: "resolve baseURL be now u (route_of u) = (calls, t)"
    by (cases "resolve baseURL be now u (route_of u)")
  have hb: "handler_body baseURL be now request =
     (calls, case t of Inr r \<Rightarrow> Inr r
              | Inl error \<Rightarrow> bind_r (get_prop error ''message'') (\<lambda>m.
                    createValidResponse now (JStr u) JNull
                      (JStr (''Error interno del servidor MCP: '' @ to_str m))))"
    using request_uri_string [OF assms] rs
    by (cases t) (simp_all add: handler_body_def switch_uri_def Let_def)
  show "fst (read_resource baseURL be now request) = fst (resolve baseURL be now u (route_of u))"
    using fst_read_resource [of baseURL be now request] hb rs by simp
  show "snd (resolve baseURL be now u (route_of u)) = Inr r \<Longrightarrow>
         snd (read_resource baseURL be now request) = Inr r"
    using hb rs by (simp add: read_resource_def)
qed

lemma has_bigint_catalog [simp]: "\<not> has_bigint catalog"
  by (simp add: catalog_def)

lemma createValidResponse_error:
  assumes "truthy errorMsg" and "\<not> has_bigint errorMsg" and "\<not> has_bigint uri" and "\<not> has_bigint data"
  shows "createValidResponse now uri data errorMsg =
           Inr (mk_content uri (Some (ser 0 (envelope errorMsg uri now (js_or data JNull)))))"
proof -
  have p: "primary_body now uri data errorMsg = envelope errorMsg uri now (js_or data JNull)"
    using assms(1) by (simp add: primary_body_def)
  have "\<not> has_bigint (envelope errorMsg uri now (js_or data JNull))"
    using assms by (simp add: envelope_def js_or_def)
  then show ?thesis using p by (simp add: createValidResponse_eq)
qed

lemma fst_resolve_FlowExecutions:
  "fst (resolve baseURL be now u (FlowExecutions fid)) = [flow_executions_request fid]"
  by (simp add: read_flow_executions_def)

section \<open>Two resolutions of one URI\<close>

lemma agree_Inl [simp]: "agree (Inl e) (Inl e)"
  by (simp add: agree_def)

lemma agree_ser:
  "drop_timestamp d1 = drop_timestamp d2 \<Longrightarrow>
   agree (Inr (mk_content uri (Some (ser 0 d1)))) (Inr (mk_content uri (Some (ser 0 d2))))"
  unfolding agree_def same_modulo_timestamp_def by auto

lemma has_bigint_primary_now:
  "has_bigint (primary_body now1 uri data errorMsg) = has_bigint (primary_body now2 uri data errorMsg)"
  by (simp add: primary_body_def envelope_def)

lemma drop_timestamp_primary:
  "drop_timestamp (primary_body now1 uri data errorMsg) = drop_timestamp (primary_body now2 uri data errorMsg)"
  by (simp add: primary_body_def envelope_def drop_timestamp_def)

lemma drop_timestamp_failure:
  "drop_timestamp (serialization_failure now1 uri) = drop_timestamp (serialization_failure now2 uri)"
  by (simp add: serialization_failure_def drop_timestamp_def)

lemma agree_cvr:
  "agree (createValidResponse now1 uri data errorMsg) (createValidResponse now2 uri data errorMsg)"
  using has_bigint_primary_now [of now1 uri data errorMsg now2]
  by (simp add: createValidResponse_eq agree_ser drop_timestamp_primary drop_timestamp_failure)

lemma agree_bind:
  assumes "\<And>x. agree (f x) (g x)"
  shows "agree (bind_r m f) (bind_r m g)"
proof (cases m)
  case (Inl e)
  then show ?thesis by (simp add: bind_r_def)
next
  case (Inr x)
  then show ?thesis using assms [of x] by (simp add: bind_r_def)
qed

lemma agree_if: "agree a b \<Longrightarrow> agree c d \<Longrightarrow> agree (if p then a else c) (if p then b else d)"
  by simp

lemma agree_try_catch:
  assumes "agree t1 t2" and "\<And>e. agree (c1 e) (c2 e)"
  shows "agree (case t1 of Inr r \<Rightarrow> Inr r | Inl e \<Rightarrow> c1 e) (case t2 of Inr r \<Rightarrow> Inr r | Inl e \<Rightarrow> c2 e)"
proof (cases t1)
  case (Inl e)
  then have "t2 = Inl e" using assms(1) by (cases t2) (simp_all add: agree_def)
  then show ?thesis using Inl assms(2) [of e] by simp
next
  case (Inr r1)
  then obtain r2 where "t2 = Inr r2" using assms(1) by (cases t2) (simp_all add: agree_def)
  then show ?thesis using Inr assms(1) by (simp add: agree_def)
qed

lemma agree_flows_try: "agree (flows_try be now1 uri) (flows_try be now2 uri)"
  unfolding flows_try_def by (intro agree_bind agree_if agree_cvr)

lemma agree_servers_try: "agree (servers_try be now1 uri) (servers_try be now2 uri)"
  unfolding servers_try_def by (intro agree_bind agree_if agree_cvr)

lemma agree_flow_executions_try:
  "agree (flow_executions_try be now1 uri flowId) (flow_executions_try be now2 uri flowId)"
  unfolding flow_executions_try_def by (intro agree_bind agree_if agree_cvr)

lemma agree_flow_try: "agree (flow_try be now1 uri flowId) (flow_try be now2 uri flowId)"
  unfolding flow_try_def by (intro agree_bind agree_if agree_cvr)

lemma agree_flows_catch: "agree (flows_catch baseURL now1 uri e) (flows_catch baseURL now2 uri e)"
  unfolding flows_catch_def Let_def by (intro agree_bind agree_cvr)

lemma agree_plain_catch: "agree (plain_catch baseURL now1 uri e) (plain_catch baseURL now2 uri e)"
  unfolding plain_catch_def Let_def by (intro agree_bind agree_cvr)

lemma agree_flow_catch:
  "agree (flow_catch baseURL now1 uri flowId e) (flow_catch baseURL now2 uri flowId e)"
  unfolding flow_catch_def Let_def by (intro agree_bind agree_cvr)

lemma agree_runs_pair [simp]: "agree_runs (c1, r1) (c2, r2) = (c1 = c2 \<and> agree r1 r2)"
  by (simp add: agree_runs_def)

lemma agree_executions_try: "agree_runs (executions_try be now1 uri) (executions_try be now2 uri)"
  unfolding executions_try_def
  by (simp add: agree_cvr split: sum.splits prod.splits)

lemma agree_runs_catch:
  assumes "agree_runs x y" and "\<And>e. agree (c1 e) (c2 e)"
  shows "agree_runs (case x of (calls, Inr r) \<Rightarrow> (calls, Inr r) | (calls, Inl e) \<Rightarrow> (calls, c1 e))
                    (case y of (calls, Inr r) \<Rightarrow> (calls, Inr r) | (calls, Inl e) \<Rightarrow> (calls, c2 e))"
proof -
  obtain k1 t1 where x: "x = (k1, t1)" by (cases x)
  obtain k2 t2 where y: "y = (k2, t2)" by (cases y)
  have k: "k1 = k2" and t: "agree t1 t2" using assms(1) x y by simp_all
  have "agree (case t1 of Inr r \<Rightarrow> Inr r | Inl e \<Rightarrow> c1 e) (case t2 of Inr r \<Rightarrow> Inr r | Inl e \<Rightarrow> c2 e)"
    using t assms(2) by (rule agree_try_catch)
  then show ?thesis using x y k by (cases t1; cases t2) simp_all
qed

lemma agree_resolve: "agree_runs (resolve baseURL be now1 u r) (resolve baseURL be now2 u r)"
proof (cases r)
  case FlowsList
  then show ?thesis
    by (simp add: read_flows_def agree_try_catch agree_flows_try agree_flows_catch)
next
  case McpServers
  then show ?thesis
    by (simp add: read_servers_def agree_try_catch agree_servers_try agree_plain_catch)
next
  case AllExecutions
  show ?thesis
    unfolding AllExecutions resolve.simps read_executions_def
    by (intro agree_runs_catch agree_executions_try agree_plain_catch)
next
  case (FlowExecutions flowId)
  then show ?thesis
    by (simp add: read_flow_executions_def agree_try_catch agree_flow_executions_try agree_plain_catch)
next
  case (SingleFlow flowId)
  then show ?thesis
    by (simp add: read_flow_def agree_try_catch agree_flow_try agree_flow_catch)
next
  case NoMatch
  then show ?thesis by (simp add: read_catalog_def agree_cvr)
qed

lemma agree_switch_uri: "agree_runs (switch_uri baseURL be now1 uri) (switch_uri baseURL be now2 uri)"
proof (cases uri)
  case (JStr u)
  then show ?thesis by (simp add: switch_uri_def agree_resolve)
qed (simp_all add: switch_uri_def agree_bind)

lemma handler_body_switch:
  assumes "get_prop request ''params'' = Inr params" and "\<not> nullish params"
  shows "handler_body baseURL be now request =
           (case switch_uri baseURL be now (own_prop params ''uri'') of
              (calls, Inr r) \<Rightarrow> (calls, Inr r)
            | (calls, Inl error) \<Rightarrow> (calls, bind_r (get_prop error ''message'') (\<lambda>m.
                  createValidResponse now (own_prop params ''uri'') JNull
                    (JStr (''Error interno del servidor MCP: '' @ to_str m)))))"
  by (simp only: handler_body_def assms sum.case Let_def if_False)

lemma agree_handler_body:
  "agree_runs (handler_body baseURL be now1 request) (handler_body baseURL be now2 request)"
proof (cases "get_prop request ''params''")
  case (Inl e)
  then show ?thesis by (simp add: handler_body_def)
next
  case (Inr params)
  show ?thesis
  proof (cases "nullish params")
    case True
    then show ?thesis using Inr by (simp add: handler_body_def)
  next
    case False
    show ?thesis
      unfolding handler_body_switch [OF Inr False]
      by (intro agree_runs_catch agree_switch_uri agree_bind agree_cvr)
  qed
qed

lemma stringify_object:
  "stringify (JObj kvs) =
     (if has_bigint (JObj kvs) then Inl (type_error ''Do not know how to serialize a BigInt'')
      else Inr (Some (ser 0 (JObj kvs))))"
  unfolding stringify_def by simp

lemma agree_critical_catch:
  "agree (critical_catch now1 request e) (critical_catch now2 request e)"
proof -
  let ?err = "JStr (''Error cr'' @ [CHR 0xC3, CHR 0xAD] @ ''tico en el servidor MCP'')"
  let ?uri = "js_or (opt_prop (opt_prop request ''params'') ''uri'') (JStr ''unknown'')"
  have "agree
      (bind_r (stringify (JObj [(''error'', ?err), (''message'', m), (''timestamp'', JStr now1)]))
         (\<lambda>t. Inr (mk_content ?uri t)))
      (bind_r (stringify (JObj [(''error'', ?err), (''message'', m), (''timestamp'', JStr now2)]))
         (\<lambda>t. Inr (mk_content ?uri t)))" for m
  proof (cases "has_bigint m")
    case True
    then show ?thesis by (simp add: stringify_def bind_r_def)
  next
    case False
    have d: "drop_timestamp (JObj [(''error'', ?err), (''message'', m), (''timestamp'', JStr now1)]) =
             drop_timestamp (JObj [(''error'', ?err), (''message'', m), (''timestamp'', JStr now2)])"
      by (simp add: drop_timestamp_def)
    have s: "stringify (JObj [(''error'', ?err), (''message'', m), (''timestamp'', JStr now)]) =
             Inr (Some (ser 0 (JObj [(''error'', ?err), (''message'', m), (''timestamp'', JStr now)])))" for now
      unfolding stringify_object using False by simp
    show ?thesis unfolding s bind_r_def sum.case by (rule agree_ser [OF d])
  qed
  then show ?thesis unfolding critical_catch_def by (intro agree_bind)
qed

lemma agree_read_resource:
  "agree_runs (read_resource baseURL be now1 request) (read_resource baseURL be now2 request)"
  unfolding read_resource_def
  by (intro agree_runs_catch agree_handler_body agree_critical_catch)

section \<open>The execution-history aggregate\<close>


















section \<open>Refused connections\<close>

lemma refused_not_nullish: "own_prop e ''code'' = JStr c \<Longrightarrow> \<not> nullish e"
  by (cases e) simp_all

lemma get_prop_ok: "\<not> nullish v \<Longrightarrow> get_prop v k = Inr (own_prop v k)"
  by (simp add: get_prop_def)

lemma js_includes_unavailable: "js_includes (unavailable_at baseURL) baseURL"
  unfolding unavailable_at_def
  using js_includes_append [of "''Backend no disponible. Aseg'' @ [CHR 0xC3, CHR 0xBA] @ ''rate de que est'' @
     [CHR 0xC3, CHR 0xA9] @ '' corriendo en ''" baseURL "[]"]
  by simp

lemma js_includes_flows_unavailable: "js_includes (flows_unavailable baseURL) baseURL"
  unfolding flows_unavailable_def
  using js_includes_append [of "''Backend no disponible en ''" baseURL "''. Aseg'' @ [CHR 0xC3, CHR 0xBA] @
     ''rate de que est'' @ [CHR 0xC3, CHR 0xA9] @ '' corriendo.''"]
  by simp

lemma plain_catch_refused:
  assumes "own_prop e ''code'' = JStr ''ECONNREFUSED''"
  shows "plain_catch baseURL now (JStr u) e =
           Inr (mk_content (JStr u)
                 (Some (ser 0 (envelope (JStr (unavailable_at baseURL)) (JStr u) now (JArr [])))))"
proof -
  have "createValidResponse now (JStr u) (JArr []) (JStr (unavailable_at baseURL)) =
          Inr (mk_content (JStr u)
                 (Some (ser 0 (envelope (JStr (unavailable_at baseURL)) (JStr u) now (js_or (JArr []) JNull)))))"
    by (rule createValidResponse_error) (simp_all add: unavailable_at_def)
  then show ?thesis
    using assms get_prop_ok [OF refused_not_nullish [OF assms]]
    by (simp add: plain_catch_def bind_r_def js_or_def)
qed

lemma flows_catch_refused:
  assumes "own_prop e ''code'' = JStr ''ECONNREFUSED''"
  shows "flows_catch baseURL now (JStr u) e =
           Inr (mk_content (JStr u)
                 (Some (ser 0 (envelope (JStr (flows_unavailable baseURL)) (JStr u) now (JArr [])))))"
proof -
  have "createValidResponse now (JStr u) (JArr []) (JStr (flows_unavailable baseURL)) =
          Inr (mk_content (JStr u)
                 (Some (ser 0 (envelope (JStr (flows_unavailable baseURL)) (JStr u) now (js_or (JArr []) JNull)))))"
    by (rule createValidResponse_error) (simp_all add: flows_unavailable_def)
  then show ?thesis
    using assms get_prop_ok [OF refused_not_nullish [OF assms]]
    by (simp add: flows_catch_def bind_r_def js_or_def flows_unavailable_def)
qed

lemma flow_catch_refused:
  assumes "own_prop e ''code'' = JStr ''ECONNREFUSED''"
  shows "flow_catch baseURL now (JStr u) flowId e =
           Inr (mk_content (JStr u)
                 (Some (ser 0 (envelope (JStr (unavailable_at baseURL)) (JStr u) now JNull))))"
proof -
  have "createValidResponse now (JStr u) JNull (JStr (unavailable_at baseURL)) =
          Inr (mk_content (JStr u)
                 (Some (ser 0 (envelope (JStr (unavailable_at baseURL)) (JStr u) now (js_or JNull JNull)))))"
    by (rule createValidResponse_error) (simp_all add: unavailable_at_def)
  then show ?thesis
    using assms get_prop_ok [OF refused_not_nullish [OF assms]]
    by (simp add: flow_catch_def bind_r_def js_or_def)
qed

lemma resolve_refused:
  assumes "primary_request r = Some rq" and "be 0 rq = Throws e"
    and "own_prop e ''code'' = JStr ''ECONNREFUSED''"
  shows "snd (resolve baseURL be now u r) =
           Inr (mk_content (JStr u)
             (Some (ser 0 (envelope
                (JStr (if r = FlowsList then flows_unavailable baseURL else unavailable_at baseURL))
                (JStr u) now (case r of SingleFlow flowId \<Rightarrow> JNull | other \<Rightarrow> JArr [])))))"
proof (cases r)
  case FlowsList
  then have "flows_try be now (JStr u) = Inl e"
    using assms(1,2) by (simp add: flows_try_def await_get_def bind_r_def)
  then show ?thesis using FlowsList flows_catch_refused [OF assms(3)] by (simp add: read_flows_def)
next
  case McpServers
  then have "servers_try be now (JStr u) = Inl e"
    using assms(1,2) by (simp add: servers_try_def await_get_def bind_r_def)
  then show ?thesis using McpServers plain_catch_refused [OF assms(3)] by (simp add: read_servers_def)
next
  case AllExecutions
  then have "executions_try be now (JStr u) = ([Get ''/api/flows'' []], Inl e)"
    using assms(1,2) by (simp add: executions_try_def await_get_def)
  then show ?thesis using AllExecutions plain_catch_refused [OF assms(3)] by (simp add: read_executions_def)
next
  case (FlowExecutions flowId)
  then have "flow_executions_try be now (JStr u) flowId = Inl e"
    using assms(1,2) by (simp add: flow_executions_try_def await_get_def bind_r_def)
  then show ?thesis using FlowExecutions plain_catch_refused [OF assms(3)]
    by (simp add: read_flow_executions_def)
next
  case (SingleFlow flowId)
  then have "flow_try be now (JStr u) flowId = Inl e"
    using assms(1,2) by (simp add: flow_try_def await_get_def bind_r_def)
  then show ?thesis using SingleFlow flow_catch_refused [OF assms(3)] by (simp add: read_flow_def)
next
  case NoMatch
  then show ?thesis using assms(1) by simp
qed

section \<open>The claims\<close>

text \<open>
  C1. Whatever the request and whatever the backend does (it may return any value or throw
  any value on any call), the read-resource handler returns a result and throws nothing.
  The result is well-formed (one content, whose text is a non-empty JSON text). It is
  either what the guarded pipeline returned, or, when the pipeline itself threw (also
  while it was building an error response), the last-resort response: the request's URI if
  it has a truthy one and \<^verbatim>\<open>'unknown'\<close> otherwise, with the exception's message and
  the timestamp in the body.
\<close>

theorem read_resource_never_throws:
  "\<exists>r. snd (read_resource baseURL be now request) = Inr r \<and> well_formed r \<and>
       (snd (handler_body baseURL be now request) = Inr r \<or>
        (\<exists>m. snd (handler_body baseURL be now request) = Inl (type_error m) \<and>
             r = mk_content (js_or (request_uri request) (JStr ''unknown''))
                   (Some (ser 0 (critical_body now m)))))"
  by (rule read_resource_cases)

theorem read_resource_never_throws_witness:
  "snd (read_resource ''http://localhost:3001'' (\<lambda>n rq. Throws JNull) ''2024-01-01T00:00:00.000Z'' JNull)
     = Inr (mk_content (JStr ''unknown'')
         (Some (ser 0 (critical_body ''2024-01-01T00:00:00.000Z''
            (''Cannot read properties of null (reading '' @ [CHR 0x27] @ ''params'' @ [CHR 0x27] @ '')'')))))
   \<and> snd (read_resource ''http://localhost:3001'' (\<lambda>n rq. Throws JNull) ''2024-01-01T00:00:00.000Z''
         (JObj [(''params'', JObj [(''uri'', JBigInt 7)])]))
     = Inr (mk_content (JBigInt 7)
         (Some (ser 0 (critical_body ''2024-01-01T00:00:00.000Z'' ''Do not know how to serialize a BigInt''))))"
  using read_resource_never_throws [of "''http://localhost:3001''" "\<lambda>n rq. Throws JNull" "''2024-01-01T00:00:00.000Z''" JNull]
    read_resource_never_throws [of "''http://localhost:3001''" "\<lambda>n rq. Throws JNull" "''2024-01-01T00:00:00.000Z''"
       "JObj [(''params'', JObj [(''uri'', JBigInt 7)])]"]
  by (simp add: handler_body_def get_prop_def request_uri_def opt_prop_def js_or_def type_error_def
      switch_uri_def bind_r_def createValidResponse_eq primary_body_def envelope_def Let_def)

text \<open>
  C2. \<^verbatim>\<open>createValidResponse\<close> is total: for every \<open>data\<close>, every \<open>errorMsg\<close> and every
  URI string it returns a content for that URI whose text is a non-empty JSON text, namely
  the serialised primary body, or the serialisation-failure envelope when serialising the
  primary body throws. The same holds for a URI that is any value without a BigInt in it
  (any value of a JSON request). And whatever the serialiser does, when the primary text
  comes back \<open>undefined\<close> or empty, the re-check replaces it by the text of the fallback
  envelope.
\<close>

theorem createValidResponse_total:
  "(\<exists>t. body_is (createValidResponse now (JStr u) data errorMsg) (JStr u) t \<and> t \<noteq> [] \<and> json_text t \<and>
        t = ser 0 (if has_bigint (primary_body now (JStr u) data errorMsg)
                   then serialization_failure now (JStr u)
                   else primary_body now (JStr u) data errorMsg)) \<and>
   (\<not> has_bigint uri \<longrightarrow>
      (\<exists>t. body_is (createValidResponse now uri data errorMsg) uri t \<and> t \<noteq> [] \<and> json_text t)) \<and>
   ((S (primary_body now uri data errorMsg) = Inr None \<or>
     S (primary_body now uri data errorMsg) = Inr (Some [])) \<longrightarrow>
    S (empty_fallback now uri) = Inr (Some t') \<longrightarrow>
    createValidResponse_with S now uri data errorMsg = Inr (mk_content uri (Some t')))"
proof -
  have a: "\<exists>t. body_is (createValidResponse now (JStr u) data errorMsg) (JStr u) t \<and> t \<noteq> [] \<and> json_text t \<and>
        t = ser 0 (if has_bigint (primary_body now (JStr u) data errorMsg)
                   then serialization_failure now (JStr u)
                   else primary_body now (JStr u) data errorMsg)"
    by (simp add: createValidResponse_eq body_is_def ser_ne json_text_ser)
  have b: "\<not> has_bigint uri \<longrightarrow>
      (\<exists>t. body_is (createValidResponse now uri data errorMsg) uri t \<and> t \<noteq> [] \<and> json_text t)"
  proof
    assume n: "\<not> has_bigint uri"
    let ?t = "ser 0 (if has_bigint (primary_body now uri data errorMsg)
                   then serialization_failure now uri else primary_body now uri data errorMsg)"
    have "body_is (createValidResponse now uri data errorMsg) uri ?t"
      using n by (simp add: createValidResponse_eq body_is_def)
    then show "\<exists>t. body_is (createValidResponse now uri data errorMsg) uri t \<and> t \<noteq> [] \<and> json_text t"
      using ser_ne json_text_ser by blast
  qed
  have c: "(S (primary_body now uri data errorMsg) = Inr None \<or>
     S (primary_body now uri data errorMsg) = Inr (Some [])) \<longrightarrow>
    S (empty_fallback now uri) = Inr (Some t') \<longrightarrow>
    createValidResponse_with S now uri data errorMsg = Inr (mk_content uri (Some t'))"
    using createValidResponse_with_recheck [of S now uri data errorMsg t'] by blast
  show ?thesis using a b c by blast
qed

theorem createValidResponse_total_witness:
  "body_is (createValidResponse ''2024-01-01T00:00:00.000Z'' (JStr ''hiveflow://flows'') (JArr [JBigInt 1]) JNull)
     (JStr ''hiveflow://flows'')
     (ser 0 (serialization_failure ''2024-01-01T00:00:00.000Z'' (JStr ''hiveflow://flows''))) \<and>
   createValidResponse_with (\<lambda>v. if v = JBool True then Inr None else stringify v)
       ''2024-01-01T00:00:00.000Z'' (JStr ''hiveflow://flows'') (JBool True) JNull
     = Inr (mk_content (JStr ''hiveflow://flows'')
         (Some (ser 0 (empty_fallback ''2024-01-01T00:00:00.000Z'' (JStr ''hiveflow://flows'')))))"
proof -
  let ?now = "''2024-01-01T00:00:00.000Z''"
  let ?u = "''hiveflow://flows''"
  let ?S = "\<lambda>v. if v = JBool True then Inr None else stringify v"
  have a: "?S (primary_body ?now (JStr ?u) (JBool True) JNull) = Inr None"
    by (simp add: primary_body_def js_or_def)
  have b: "?S (empty_fallback ?now (JStr ?u)) = Inr (Some (ser 0 (empty_fallback ?now (JStr ?u))))"
    by (simp add: stringify_def empty_fallback_def)
  have c: "has_bigint (primary_body ?now (JStr ?u) (JArr [JBigInt 1]) JNull)"
    by (simp add: primary_body_def js_or_def)
  have "body_is (createValidResponse ?now (JStr ?u) (JArr [JBigInt 1]) JNull) (JStr ?u)
          (ser 0 (serialization_failure ?now (JStr ?u)))"
    using createValidResponse_total [of ?now ?u "JArr [JBigInt 1]" JNull "JStr ?u" ?S "[]"] c
    by auto
  moreover have "createValidResponse_with ?S ?now (JStr ?u) (JBool True) JNull
       = Inr (mk_content (JStr ?u) (Some (ser 0 (empty_fallback ?now (JStr ?u)))))"
    using createValidResponse_total [of ?now ?u "JBool True" JNull "JStr ?u" ?S
        "ser 0 (empty_fallback ?now (JStr ?u))"] a b
    by blast
  ultimately show ?thesis by simp
qed

text \<open>
  C3, as stated, does not hold: when the connection is refused on the flows literal, the
  body is the error envelope whose \<^verbatim>\<open>data\<close> is the empty array, which is not the
  envelope with \<^verbatim>\<open>data: null\<close>.
\<close>

theorem error_data_not_null_counterexample:
  "snd (read_resource ''http://localhost:3001''
          (\<lambda>n rq. Throws (JObj [(''message'', JStr ''connect ECONNREFUSED 127.0.0.1:3001''),
                               (''code'', JStr ''ECONNREFUSED'')]))
          ''2024-01-01T00:00:00.000Z''
          (JObj [(''params'', JObj [(''uri'', JStr ''hiveflow://flows'')])]))
     = Inr (mk_content (JStr ''hiveflow://flows'')
         (Some (ser 0 (envelope (JStr (flows_unavailable ''http://localhost:3001''))
                  (JStr ''hiveflow://flows'') ''2024-01-01T00:00:00.000Z'' (JArr []))))) \<and>
   ser 0 (envelope (JStr (flows_unavailable ''http://localhost:3001''))
            (JStr ''hiveflow://flows'') ''2024-01-01T00:00:00.000Z'' (JArr []))
     \<noteq> ser 0 (envelope (JStr (flows_unavailable ''http://localhost:3001''))
            (JStr ''hiveflow://flows'') ''2024-01-01T00:00:00.000Z'' JNull)"
proof -
  let ?e = "JObj [(''message'', JStr ''connect ECONNREFUSED 127.0.0.1:3001''), (''code'', JStr ''ECONNREFUSED'')]"
  let ?req = "JObj [(''params'', JObj [(''uri'', JStr ''hiveflow://flows'')])]"
  have u: "request_uri ?req = JStr ''hiveflow://flows''" by (simp add: request_uri_def opt_prop_def)
  have r: "route_of ''hiveflow://flows'' = FlowsList" by (rule route_literals)
  have "snd (resolve ''http://localhost:3001'' (\<lambda>n rq. Throws ?e) ''2024-01-01T00:00:00.000Z''
               ''hiveflow://flows'' (route_of ''hiveflow://flows''))
     = Inr (mk_content (JStr ''hiveflow://flows'')
         (Some (ser 0 (envelope (JStr (flows_unavailable ''http://localhost:3001''))
                  (JStr ''hiveflow://flows'') ''2024-01-01T00:00:00.000Z'' (JArr [])))))"
    using resolve_refused [of FlowsList "Get ''/api/flows'' []" "\<lambda>n rq. Throws ?e" ?e
        "''http://localhost:3001''" "''2024-01-01T00:00:00.000Z''" "''hiveflow://flows''"]
    by (simp add: r)
  then have a: "snd (read_resource ''http://localhost:3001'' (\<lambda>n rq. Throws ?e)
                  ''2024-01-01T00:00:00.000Z'' ?req)
     = Inr (mk_content (JStr ''hiveflow://flows'')
         (Some (ser 0 (envelope (JStr (flows_unavailable ''http://localhost:3001''))
                  (JStr ''hiveflow://flows'') ''2024-01-01T00:00:00.000Z'' (JArr [])))))"
    by (rule read_resource_string(2) [OF u])
  have b: "ser 0 (envelope (JStr (flows_unavailable ''http://localhost:3001''))
            (JStr ''hiveflow://flows'') ''2024-01-01T00:00:00.000Z'' (JArr []))
     \<noteq> ser 0 (envelope (JStr (flows_unavailable ''http://localhost:3001''))
            (JStr ''hiveflow://flows'') ''2024-01-01T00:00:00.000Z'' JNull)"
    by (simp add: envelope_def nl_def indent_def quote_def)
  show ?thesis using a b by simp
qed

text \<open>
  C3, amended. When \<^verbatim>\<open>createValidResponse\<close> is called with a truthy error message (and
  JSON arguments), the body is the serialised envelope
  \<^verbatim>\<open>{error: message, uri, timestamp, data: d}\<close> where \<open>d\<close> is the \<open>data\<close> argument when it is
  truthy and \<open>null\<close> otherwise: \<open>null\<close> where the caller passes \<open>null\<close>, the empty array where
  it passes \<^verbatim>\<open>[]\<close>.
\<close>

theorem error_envelope_data:
  assumes "truthy errorMsg" and "\<not> has_bigint errorMsg" and "\<not> has_bigint data"
  shows "body_is (createValidResponse now (JStr u) data errorMsg) (JStr u)
           (ser 0 (envelope errorMsg (JStr u) now (if truthy data then data else JNull)))"
  using createValidResponse_error [OF assms(1,2) _ assms(3), of "JStr u" now]
  by (simp add: body_is_def js_or_def)

theorem error_envelope_data_witness:
  "body_is (createValidResponse ''2024-01-01T00:00:00.000Z'' (JStr ''hiveflow://flows'') (JArr [])
              (JStr ''Error de red''))
     (JStr ''hiveflow://flows'')
     (ser 0 (JObj [(''error'', JStr ''Error de red''), (''uri'', JStr ''hiveflow://flows''),
                   (''timestamp'', JStr ''2024-01-01T00:00:00.000Z''), (''data'', JArr [])])) \<and>
   body_is (createValidResponse ''2024-01-01T00:00:00.000Z'' (JStr ''hiveflow://flows/abc'') JNull
              (JStr ''Error de red''))
     (JStr ''hiveflow://flows/abc'')
     (ser 0 (JObj [(''error'', JStr ''Error de red''), (''uri'', JStr ''hiveflow://flows/abc''),
                   (''timestamp'', JStr ''2024-01-01T00:00:00.000Z''), (''data'', JNull)]))"
  using error_envelope_data [of "JStr ''Error de red''" "JArr []" "''2024-01-01T00:00:00.000Z''" "''hiveflow://flows''"]
    error_envelope_data [of "JStr ''Error de red''" JNull "''2024-01-01T00:00:00.000Z''" "''hiveflow://flows/abc''"]
  by (simp add: envelope_def)

text \<open>
  C4, as stated, does not hold: the URI \<^verbatim>\<open>hiveflow://flows//executions\<close>, whose
  identifier remainder is empty, is resolved by the executions template, with a
  child-listing call for the empty identifier.
\<close>

theorem empty_identifier_counterexample:
  "route_of ''hiveflow://flows//executions'' = FlowExecutions [] \<and>
   fst (read_resource ''http://localhost:3001''
          (\<lambda>n rq. Returns (JObj [(''data'', JObj [(''success'', JBool True), (''processes'', JArr [])])]))
          ''2024-01-01T00:00:00.000Z''
          (JObj [(''params'', JObj [(''uri'', JStr ''hiveflow://flows//executions'')])]))
     = [Get ''/api/flows//processes'' [(''limit'', JNum 20)]]"
proof -
  have r: "route_of ''hiveflow://flows//executions'' = FlowExecutions []"
    by (simp add: route_of_def startsWith_def)
  have u: "request_uri (JObj [(''params'', JObj [(''uri'', JStr ''hiveflow://flows//executions'')])])
             = JStr ''hiveflow://flows//executions''"
    by (simp add: request_uri_def opt_prop_def)
  show ?thesis
    using read_resource_string(1) [OF u] r
    by (simp add: read_flow_executions_def flow_executions_request_def)
qed

text \<open>
  C4, amended. A URI is resolved by the executions template exactly when it starts with
  \<^verbatim>\<open>hiveflow://flows/\<close> and contains \<^verbatim>\<open>/executions\<close>, whatever remains as identifier
  (also nothing); it is resolved by the single-flow template exactly when it starts with
  the prefix and does not contain \<^verbatim>\<open>/executions\<close>.
\<close>

theorem template_match_conditions:
  "(route_of uri = FlowExecutions flowId \<longleftrightarrow>
      startsWith uri flows_prefix \<and> js_includes uri executions_segment \<and>
      flowId = replace (drop (length flows_prefix) uri) executions_segment []) \<and>
   (route_of uri = SingleFlow flowId \<longleftrightarrow>
      startsWith uri flows_prefix \<and> \<not> js_includes uri executions_segment \<and>
      flowId = drop (length flows_prefix) uri)"
  using route_of_FlowExecutions_iff [of uri flowId] route_of_SingleFlow_iff [of uri flowId] by simp

theorem template_match_conditions_witness:
  "route_of ''hiveflow://flows/abc'' = SingleFlow ''abc'' \<and>
   route_of ''hiveflow://flows/executions'' = FlowExecutions ''executions''"
  using template_match_conditions [of "''hiveflow://flows/abc''" "''abc''"]
    template_match_conditions [of "''hiveflow://flows/executions''" "''executions''"]
  by (simp add: startsWith_def flows_prefix_def executions_segment_def)

text \<open>
  C5. Precedence. Every URI \<^verbatim>\<open>hiveflow://flows/<identifier>/executions\<close> is resolved by
  the executions template, with exactly one backend call, a child listing, and never by
  the single-flow template. When the identifier does not itself contain
  \<^verbatim>\<open>/executions\<close> (so for every identifier that is one path segment, such as
  \<^verbatim>\<open>123\<close>), that call is the child listing of this identifier. Each of the three
  literals is resolved by its own \<^verbatim>\<open>case\<close>, which the \<^verbatim>\<open>switch\<close> tries before the
  templates of its \<^verbatim>\<open>default\<close>.
\<close>

theorem executions_template_precedence:
  assumes "request_uri request = JStr (flows_prefix @ ident @ executions_segment)"
  shows "(\<exists>flowId. route_of (flows_prefix @ ident @ executions_segment) = FlowExecutions flowId \<and>
            fst (read_resource baseURL be now request) = [flow_executions_request flowId]) \<and>
         (\<forall>flowId. route_of (flows_prefix @ ident @ executions_segment) \<noteq> SingleFlow flowId) \<and>
         (\<not> js_includes ident executions_segment \<longrightarrow>
            route_of (flows_prefix @ ident @ executions_segment) = FlowExecutions ident \<and>
            fst (read_resource baseURL be now request) = [flow_executions_request ident]) \<and>
         route_of ''hiveflow://flows'' = FlowsList \<and>
         route_of ''hiveflow://mcp-servers'' = McpServers \<and>
         route_of ''hiveflow://executions'' = AllExecutions"
proof -
  let ?u = "flows_prefix @ ident @ executions_segment"
  have s: "startsWith ?u flows_prefix"
    by (rule startsWith_append)
  have i: "js_includes ?u executions_segment"
    using js_includes_append [of "flows_prefix @ ident" executions_segment "[]"] by simp
  have r: "route_of ?u = FlowExecutions (replace (drop (length flows_prefix) ?u) executions_segment [])"
    using s i by (simp add: route_of_FlowExecutions_iff)
  have c: "fst (read_resource baseURL be now request) = fst (resolve baseURL be now ?u (route_of ?u))"
    by (rule read_resource_string(1) [OF assms])
  have a: "\<exists>flowId. route_of ?u = FlowExecutions flowId \<and>
            fst (read_resource baseURL be now request) = [flow_executions_request flowId]"
    using r c fst_resolve_FlowExecutions by simp
  have b: "\<forall>flowId. route_of ?u \<noteq> SingleFlow flowId"
    using r by simp
  have d: "\<not> js_includes ident executions_segment \<longrightarrow>
            route_of ?u = FlowExecutions ident \<and>
            fst (read_resource baseURL be now request) = [flow_executions_request ident]"
  proof
    assume n: "\<not> js_includes ident executions_segment"
    have "route_of ?u = FlowExecutions ident" by (rule route_of_template_uri [OF n])
    then show "route_of ?u = FlowExecutions ident \<and>
            fst (read_resource baseURL be now request) = [flow_executions_request ident]"
      using c fst_resolve_FlowExecutions by simp
  qed
  show ?thesis using a b d route_literals by blast
qed

theorem executions_template_precedence_witness:
  "route_of ''hiveflow://flows/123/executions'' = FlowExecutions ''123'' \<and>
   fst (read_resource ''http://localhost:3001'' (\<lambda>n rq. Returns JNull) ''2024-01-01T00:00:00.000Z''
          (JObj [(''params'', JObj [(''uri'', JStr ''hiveflow://flows/123/executions'')])]))
     = [Get ''/api/flows/123/processes'' [(''limit'', JNum 20)]]"
  using executions_template_precedence [of "JObj [(''params'', JObj [(''uri'', JStr ''hiveflow://flows/123/executions'')])]"
      "''123''" "''http://localhost:3001''" "\<lambda>n rq. Returns JNull" "''2024-01-01T00:00:00.000Z''"]
  by (simp add: request_uri_def opt_prop_def startsWith_def flows_prefix_def executions_segment_def
      flow_executions_request_def)

text \<open>
  C6. A URI string that is none of the three literals and does not start with
  \<^verbatim>\<open>hiveflow://flows/\<close> matches nothing. The handler then issues no backend call and
  returns, without throwing, the envelope whose \<^verbatim>\<open>data\<close> is the catalogue (the three
  literal addresses and the two templates) and whose \<^verbatim>\<open>error\<close> is
  \<^verbatim>\<open>Recurso no encontrado: \<close> followed by the URI.
\<close>

theorem unknown_uri_catalog:
  assumes "request_uri request = JStr u" and "route_of u = NoMatch"
  shows "read_resource baseURL be now request =
           ([], Inr (mk_content (JStr u)
                  (Some (ser 0 (envelope (JStr (''Recurso no encontrado: '' @ u)) (JStr u) now catalog)))))"
proof -
  have c: "createValidResponse now (JStr u) catalog (JStr (''Recurso no encontrado: '' @ u)) =
        Inr (mk_content (JStr u)
                  (Some (ser 0 (envelope (JStr (''Recurso no encontrado: '' @ u)) (JStr u) now catalog))))"
    using createValidResponse_error [of "JStr (''Recurso no encontrado: '' @ u)" "JStr u" catalog now]
    by (simp add: js_or_def catalog_def)
  have r: "resolve baseURL be now u (route_of u) = ([], Inr (mk_content (JStr u)
                  (Some (ser 0 (envelope (JStr (''Recurso no encontrado: '' @ u)) (JStr u) now catalog)))))"
    using assms(2) c by (simp add: read_catalog_def)
  show ?thesis
    using read_resource_string [OF assms(1), of baseURL be now] r
    by (metis fst_conv snd_conv prod.collapse)
qed

theorem unknown_uri_catalog_witness:
  "read_resource ''http://localhost:3001'' (\<lambda>n rq. Throws JNull) ''2024-01-01T00:00:00.000Z''
       (JObj [(''method'', JStr ''resources/read''), (''params'', JObj [(''uri'', JStr ''hiveflow://bogus'')])]) =
     ([], Inr (mk_content (JStr ''hiveflow://bogus'')
        (Some (ser 0 (JObj [(''error'', JStr ''Recurso no encontrado: hiveflow://bogus''),
                            (''uri'', JStr ''hiveflow://bogus''),
                            (''timestamp'', JStr ''2024-01-01T00:00:00.000Z''),
                            (''data'', JObj [(''availableResources'',
                                JArr [JStr ''hiveflow://flows'', JStr ''hiveflow://mcp-servers'',
                                      JStr ''hiveflow://executions'']),
                              (''availableTemplates'',
                                JArr [JStr ''hiveflow://flows/{flowId}'',
                                      JStr ''hiveflow://flows/{flowId}/executions''])])])))))"
  using unknown_uri_catalog [of "JObj [(''method'', JStr ''resources/read''), (''params'', JObj [(''uri'', JStr ''hiveflow://bogus'')])]"
      "''hiveflow://bogus''" "''http://localhost:3001''" "\<lambda>n rq. Throws JNull" "''2024-01-01T00:00:00.000Z''"]
  by (simp add: request_uri_def opt_prop_def route_of_def startsWith_def envelope_def catalog_def)



text \<open>
  C8. On every literal address and every template: when the request the resolution starts
  with is refused (the client throws an error whose \<^verbatim>\<open>code\<close> is
  \<^verbatim>\<open>ECONNREFUSED\<close>), the handler returns the error envelope for the URI, and the
  \<^verbatim>\<open>error\<close> string of that envelope contains the configured base URL.
\<close>

theorem refused_connection_mentions_base_url:
  assumes "request_uri request = JStr u"
    and "primary_request (route_of u) = Some rq"
    and "be 0 rq = Throws e"
    and "own_prop e ''code'' = JStr ''ECONNREFUSED''"
  shows "snd (read_resource baseURL be now request) =
           Inr (mk_content (JStr u) (Some (ser 0 (envelope
             (JStr (if route_of u = FlowsList then flows_unavailable baseURL else unavailable_at baseURL))
             (JStr u) now
             (case route_of u of SingleFlow flowId \<Rightarrow> JNull | other \<Rightarrow> JArr []))))) \<and>
         js_includes (if route_of u = FlowsList then flows_unavailable baseURL else unavailable_at baseURL)
           baseURL"
proof -
  let ?msg = "if route_of u = FlowsList then flows_unavailable baseURL else unavailable_at baseURL"
  let ?d = "case route_of u of SingleFlow flowId \<Rightarrow> JNull | other \<Rightarrow> JArr []"
  have "snd (read_resource baseURL be now request) =
          Inr (mk_content (JStr u) (Some (ser 0 (envelope (JStr ?msg) (JStr u) now ?d))))"
    using resolve_refused [of "route_of u" rq be e baseURL now u, OF assms(2,3,4)]
    by (rule read_resource_string(2) [OF assms(1)])
  moreover have "js_includes ?msg baseURL"
    by (simp add: js_includes_unavailable js_includes_flows_unavailable)
  ultimately show ?thesis by simp
qed

theorem refused_connection_mentions_base_url_witness:
  "snd (read_resource ''http://localhost:3001''
          (\<lambda>n rq. Throws (JObj [(''message'', JStr ''connect ECONNREFUSED 127.0.0.1:3001''),
                               (''code'', JStr ''ECONNREFUSED'')]))
          ''2024-01-01T00:00:00.000Z''
          (JObj [(''params'', JObj [(''uri'', JStr ''hiveflow://flows/abc'')])]))
     = Inr (mk_content (JStr ''hiveflow://flows/abc'')
         (Some (ser 0 (JObj [(''error'', JStr (unavailable_at ''http://localhost:3001'')),
                             (''uri'', JStr ''hiveflow://flows/abc''),
                             (''timestamp'', JStr ''2024-01-01T00:00:00.000Z''),
                             (''data'', JNull)])))) \<and>
   js_includes (unavailable_at ''http://localhost:3001'') ''http://localhost:3001''"
proof -
  have r: "route_of ''hiveflow://flows/abc'' = SingleFlow ''abc''"
    by (simp add: route_of_def startsWith_def)
  show ?thesis
    using refused_connection_mentions_base_url [of
      "JObj [(''params'', JObj [(''uri'', JStr ''hiveflow://flows/abc'')])]" "''hiveflow://flows/abc''"
      "Get ''/api/flows/abc'' []"
      "\<lambda>n rq. Throws (JObj [(''message'', JStr ''connect ECONNREFUSED 127.0.0.1:3001''),
                               (''code'', JStr ''ECONNREFUSED'')])"
      "JObj [(''message'', JStr ''connect ECONNREFUSED 127.0.0.1:3001''), (''code'', JStr ''ECONNREFUSED'')]"
      "''http://localhost:3001''" "''2024-01-01T00:00:00.000Z''"]
    by (simp add: r request_uri_def opt_prop_def flow_request_def envelope_def)
qed

text \<open>
  C9. Resolving the same request twice against an unchanged backend (one that answers the
  calls of the second resolution as it answered those of the first), at two times \<open>now1\<close>
  and \<open>now2\<close>, issues the same backend calls and returns two results with the same URI and
  media type whose bodies serialise values that differ at most in the top-level
  \<^verbatim>\<open>timestamp\<close> member.
\<close>

theorem read_resource_idempotent:
  "fst (read_resource baseURL be now1 request) = fst (read_resource baseURL be now2 request) \<and>
   (\<exists>r1 r2. snd (read_resource baseURL be now1 request) = Inr r1 \<and>
            snd (read_resource baseURL be now2 request) = Inr r2 \<and>
            same_modulo_timestamp r1 r2)"
proof -
  obtain r1 where r1: "snd (read_resource baseURL be now1 request) = Inr r1"
    using read_resource_cases [of baseURL be now1 request] by blast
  obtain r2 where r2: "snd (read_resource baseURL be now2 request) = Inr r2"
    using read_resource_cases [of baseURL be now2 request] by blast
  have a: "agree_runs (read_resource baseURL be now1 request) (read_resource baseURL be now2 request)"
    by (rule agree_read_resource)
  then have "same_modulo_timestamp r1 r2" using r1 r2 by (simp add: agree_runs_def agree_def)
  then show ?thesis using a r1 r2 by (simp add: agree_runs_def)
qed

theorem read_resource_idempotent_witness:
  "snd (read_resource ''http://localhost:3001'' (\<lambda>n rq. Throws (JObj [(''code'', JStr ''ECONNREFUSED'')]))
          ''2024-01-01T00:00:00.000Z''
          (JObj [(''params'', JObj [(''uri'', JStr ''hiveflow://mcp-servers'')])]))
     = Inr (mk_content (JStr ''hiveflow://mcp-servers'')
         (Some (ser 0 (envelope (JStr (unavailable_at ''http://localhost:3001''))
                  (JStr ''hiveflow://mcp-servers'') ''2024-01-01T00:00:00.000Z'' (JArr []))))) \<and>
   snd (read_resource ''http://localhost:3001'' (\<lambda>n rq. Throws (JObj [(''code'', JStr ''ECONNREFUSED'')]))
          ''2024-01-01T00:00:05.000Z''
          (JObj [(''params'', JObj [(''uri'', JStr ''hiveflow://mcp-servers'')])]))
     = Inr (mk_content (JStr ''hiveflow://mcp-servers'')
         (Some (ser 0 (envelope (JStr (unavailable_at ''http://localhost:3001''))
                  (JStr ''hiveflow://mcp-servers'') ''2024-01-01T00:00:05.000Z'' (JArr []))))) \<and>
   same_modulo_timestamp
     (mk_content (JStr ''hiveflow://mcp-servers'')
         (Some (ser 0 (envelope (JStr (unavailable_at ''http://localhost:3001''))
                  (JStr ''hiveflow://mcp-servers'') ''2024-01-01T00:00:00.000Z'' (JArr [])))))
     (mk_content (JStr ''hiveflow://mcp-servers'')
         (Some (ser 0 (envelope (JStr (unavailable_at ''http://localhost:3001''))
                  (JStr ''hiveflow://mcp-servers'') ''2024-01-01T00:00:05.000Z'' (JArr [])))))"
proof -
  let ?be = "\<lambda>(n::nat) (rq::http_get). Throws (JObj [(''code'', JStr ''ECONNREFUSED'')])"
  let ?req = "JObj [(''params'', JObj [(''uri'', JStr ''hiveflow://mcp-servers'')])]"
  let ?u = "''hiveflow://mcp-servers''"
  have u: "request_uri ?req = JStr ?u" by (simp add: request_uri_def opt_prop_def)
  have r: "route_of ?u = McpServers" by (rule route_literals)
  have s: "snd (read_resource ''http://localhost:3001'' ?be now ?req)
     = Inr (mk_content (JStr ?u)
         (Some (ser 0 (envelope (JStr (unavailable_at ''http://localhost:3001''))
                  (JStr ?u) now (JArr [])))))" for now
  proof -
    have "snd (resolve ''http://localhost:3001'' ?be now ?u (route_of ?u))
       = Inr (mk_content (JStr ?u)
         (Some (ser 0 (envelope (JStr (unavailable_at ''http://localhost:3001''))
                  (JStr ?u) now (JArr [])))))"
      using resolve_refused [of McpServers "Get ''/api/mcp/servers'' []" ?be
          "JObj [(''code'', JStr ''ECONNREFUSED'')]" "''http://localhost:3001''" now ?u]
      by (simp add: r)
    then show ?thesis by (rule read_resource_string(2) [OF u])
  qed
  show ?thesis
    using read_resource_idempotent [of "''http://localhost:3001''" ?be "''2024-01-01T00:00:00.000Z''" ?req
        "''2024-01-01T00:00:05.000Z''"]
    unfolding s by simp
qed

text \<open>
  C10. Matching of the executions template is by substring: every URI that starts with
  \<^verbatim>\<open>hiveflow://flows/\<close> and contains \<^verbatim>\<open>/executions\<close> anywhere is resolved by the
  executions branch, with exactly one child-listing call, for the identifier obtained by
  deleting the prefix and then the first occurrence of \<^verbatim>\<open>/executions\<close> in what remains.
\<close>

theorem executions_template_substring:
  assumes "request_uri request = JStr uri"
    and "startsWith uri flows_prefix" and "js_includes uri executions_segment"
  shows "route_of uri = FlowExecutions (replace (drop (length flows_prefix) uri) executions_segment []) \<and>
         fst (read_resource baseURL be now request) =
           [flow_executions_request (replace (drop (length flows_prefix) uri) executions_segment [])]"
proof -
  have r: "route_of uri = FlowExecutions (replace (drop (length flows_prefix) uri) executions_segment [])"
    using assms(2,3) by (simp add: route_of_FlowExecutions_iff)
  then show ?thesis
    using read_resource_string(1) [OF assms(1), of baseURL be now] fst_resolve_FlowExecutions
    by simp
qed

theorem executions_template_substring_witness:
  "fst (read_resource ''http://localhost:3001'' (\<lambda>n rq. Returns JNull) ''2024-01-01T00:00:00.000Z''
          (JObj [(''params'', JObj [(''uri'', JStr ''hiveflow://flows/abc/executionsXYZ'')])]))
     = [Get ''/api/flows/abcXYZ/processes'' [(''limit'', JNum 20)]] \<and>
   fst (read_resource ''http://localhost:3001'' (\<lambda>n rq. Returns JNull) ''2024-01-01T00:00:00.000Z''
          (JObj [(''params'', JObj [(''uri'', JStr ''hiveflow://flows//executions'')])]))
     = [Get ''/api/flows//processes'' [(''limit'', JNum 20)]]"
  using executions_template_substring [of "JObj [(''params'', JObj [(''uri'', JStr ''hiveflow://flows/abc/executionsXYZ'')])]"
      "''hiveflow://flows/abc/executionsXYZ''" "''http://localhost:3001''" "\<lambda>n rq. Returns JNull" "''2024-01-01T00:00:00.000Z''"]
    executions_template_substring [of "JObj [(''params'', JObj [(''uri'', JStr ''hiveflow://flows//executions'')])]"
      "''hiveflow://flows//executions''" "''http://localhost:3001''" "\<lambda>n rq. Returns JNull" "''2024-01-01T00:00:00.000Z''"]
  by (simp add: request_uri_def opt_prop_def startsWith_def flows_prefix_def executions_segment_def
      flow_executions_request_def)

end
